theory Spec2Isabelle
  imports Main "HOL-Library.AList"
begin

section \<open>The pcopy server: data model\<close>

text \<open>
  A shallow embedding of \<^verbatim>\<open>server.go\<close>.  Go strings and byte slices are both
  \<^typ>\<open>string\<close> (a list of bytes).  A handler returns \<^verbatim>\<open>error\<close>; here it
  returns \<open>error + unit\<close>, \<open>Inr ()\<close> for \<^verbatim>\<open>nil\<close>.  Library services and the
  parts of the package that live in other files (key derivation, URL generation,
  duration parsing, the JSON codec, base64, HMAC-SHA256) are the fields of a record
  \<open>deps\<close>; every theorem holds for all of them.
\<close>

type_synonym bytes = string

datatype error =
    ErrHTTPPartialContent
  | ErrHTTPBadRequest
  | ErrHTTPMethodNotAllowed
  | ErrHTTPNotFound
  | ErrHTTPTooManyRequests
  | ErrHTTPPayloadTooLarge
  | ErrHTTPUnauthorized
  | ErrOther string
  | Panic string

text \<open>The status code \<^verbatim>\<open>handle\<close> sends for an error: the code of an
  \<^verbatim>\<open>errHTTPNotOK\<close>, 500 for any other error.\<close>

fun status_code :: "error \<Rightarrow> nat" where
  "status_code ErrHTTPPartialContent = 206"
| "status_code ErrHTTPBadRequest = 400"
| "status_code ErrHTTPMethodNotAllowed = 405"
| "status_code ErrHTTPNotFound = 404"
| "status_code ErrHTTPTooManyRequests = 429"
| "status_code ErrHTTPPayloadTooLarge = 413"
| "status_code ErrHTTPUnauthorized = 401"
| "status_code (ErrOther msg) = 500"
| "status_code (Panic msg) = 500"

record Key =
  Bytes :: bytes
  Salt :: bytes

record metaFile =
  Mode :: string
  Expires :: int

record Config =
  Key :: "Key option"
  ClipboardCountLimit :: int
  ClipboardSizeLimit :: int
  FileSizeLimit :: int
  FileExpireAfter :: int
  FileModesAllowed :: "string list"

record request =
  Method :: string
  Path :: string
  Header :: "string \<rightharpoonup> string"
  Query :: "string \<rightharpoonup> string list"
  Body :: "bytes list option"
  RemoteAddr :: string

record deps =
  b64decode :: "string \<Rightarrow> bytes option"
  hmac_sha256 :: "bytes \<Rightarrow> bytes \<Rightarrow> bytes"
  DeriveKey :: "bytes \<Rightarrow> bytes \<Rightarrow> bytes"
  GenerateClipURL :: "string \<Rightarrow> int \<Rightarrow> string option"
  parseDuration :: "string \<Rightarrow> int option"
  encode_put :: "string \<Rightarrow> int \<Rightarrow> bytes"
  encode_meta :: "metaFile \<Rightarrow> bytes"
  decode_meta :: "bytes \<Rightarrow> metaFile option"
  SplitHostPort :: "string \<Rightarrow> string option"
  modeReadOnly :: string

definition Header_Get :: "request \<Rightarrow> string \<Rightarrow> string" where
  "Header_Get r k = (case Header r k of None \<Rightarrow> [] | Some v \<Rightarrow> v)"

definition Query_Get :: "request \<Rightarrow> string \<Rightarrow> string" where
  "Query_Get r k = (case Query r k of Some (v # vs) \<Rightarrow> v | _ \<Rightarrow> [])"

definition queryParamAuth :: string where "queryParamAuth = ''a''"
definition queryParamStream :: string where "queryParamStream = ''s''"
definition queryParamFormat :: string where "queryParamFormat = ''f''"
definition queryParamFileMode :: string where "queryParamFileMode = ''m''"
definition queryParamTTL :: string where "queryParamTTL = ''t''"
definition headerStream :: string where "headerStream = ''X-Stream''"
definition headerFormat :: string where "headerFormat = ''X-Format''"
definition headerFileMode :: string where "headerFileMode = ''X-Mode''"
definition headerTTL :: string where "headerTTL = ''X-TTL''"
definition headerURL :: string where "headerURL = ''X-Url''"
definition headerExpires :: string where "headerExpires = ''X-Expires''"

text \<open>Durations and instants are nanoseconds, as in Go.\<close>

definition second :: int where "second = 1000000000"
definition defaultMaxAuthAge :: int where "defaultMaxAuthAge = 60 * second"
definition visitorCountLimit :: int where "visitorCountLimit = 10"
definition visitorExpungeAfter :: int where "visitorExpungeAfter = 180 * second"

definition maxInt64 :: int where "maxInt64 = 2 ^ 63 - 1"
definition minInt64 :: int where "minInt64 = - (2 ^ 63)"

text \<open>Two's-complement wrap-around of an \<^verbatim>\<open>int64\<close> product, and the saturation
  that \<^verbatim>\<open>Time.Sub\<close> documents for a \<^verbatim>\<open>Duration\<close> out of range.\<close>

definition wrap64 :: "int \<Rightarrow> int" where
  "wrap64 x = (x + 2 ^ 63) mod 2 ^ 64 - 2 ^ 63"

definition sat64 :: "int \<Rightarrow> int" where
  "sat64 x = (if x > maxInt64 then maxInt64 else if x < minInt64 then minInt64 else x)"

text \<open>
  \<^verbatim>\<open>time.Since(time.Unix(sec, 0))\<close> at the clock \<open>now\<close>.  \<^verbatim>\<open>time.Unix\<close> keeps
  the seconds since the year 1 in an \<^verbatim>\<open>int64\<close>, \<^verbatim>\<open>sec + unixToInternal\<close>, which
  wraps around for \<open>sec\<close> in the last 62135596800 values of \<^verbatim>\<open>int64\<close>; the
  difference to the clock is then saturated by \<^verbatim>\<open>Time.Sub\<close>.
\<close>

definition unixToInternal :: int where "unixToInternal = 62135596800"

definition Since_Unix :: "int \<Rightarrow> int \<Rightarrow> int" where
  "Since_Unix now sec =
     sat64 (now + unixToInternal * 1000000000 - wrap64 (sec + unixToInternal) * 1000000000)"

section \<open>Decimal numbers, regular expressions, splitting\<close>

definition is_digit :: "char \<Rightarrow> bool" where
  "is_digit c = (c \<in> set ''0123456789'')"

definition digit_val :: "char \<Rightarrow> nat" where
  "digit_val c = of_char c - 48"

definition dec_val :: "string \<Rightarrow> nat" where
  "dec_val s = foldl (\<lambda>n c. 10 * n + digit_val c) 0 s"

text \<open>\<^verbatim>\<open>strconv.Atoi\<close> on the digit strings that the regular expressions
  deliver: the value, or a range error beyond \<^verbatim>\<open>int64\<close>.\<close>

definition Atoi :: "string \<Rightarrow> int option" where
  "Atoi s = (if s \<noteq> [] \<and> list_all is_digit s \<and> int (dec_val s) \<le> maxInt64
             then Some (int (dec_val s)) else None)"

definition digit_char :: "nat \<Rightarrow> char" where
  "digit_char n = ''0123456789'' ! n"

function dec :: "nat \<Rightarrow> string" where
  "dec n = (if n < 10 then [digit_char n] else dec (n div 10) @ [digit_char (n mod 10)])"
  by pat_completeness auto
termination
  by (relation "measure id") auto

declare dec.simps [simp del]

text \<open>\<^verbatim>\<open>%d\<close> of \<^verbatim>\<open>fmt.Sprintf\<close>.\<close>

definition fmt_d :: "int \<Rightarrow> string" where
  "fmt_d i = (if i < 0 then CHR ''-'' # dec (nat (- i)) else dec (nat i))"

fun strip_prefix :: "string \<Rightarrow> string \<Rightarrow> string option" where
  "strip_prefix [] s = Some s"
| "strip_prefix (p # ps) [] = None"
| "strip_prefix (p # ps) (c # cs) = (if p = c then strip_prefix ps cs else None)"

text \<open>\<^verbatim>\<open>^HMAC (\d+) (\d+) (.+)$\<close>: the submatches, whole match first.  A run of
  digits is followed by a space, so the greedy match is the only one; \<^verbatim>\<open>.\<close> does
  not match a newline.\<close>

definition authHmacRegex :: "string \<Rightarrow> string list option" where
  "authHmacRegex s =
     (case strip_prefix ''HMAC '' s of
        None \<Rightarrow> None
      | Some r1 \<Rightarrow>
          if takeWhile is_digit r1 = [] then None
          else (case strip_prefix '' '' (dropWhile is_digit r1) of
                  None \<Rightarrow> None
                | Some r2 \<Rightarrow>
                    if takeWhile is_digit r2 = [] then None
                    else (case strip_prefix '' '' (dropWhile is_digit r2) of
                            None \<Rightarrow> None
                          | Some sg \<Rightarrow>
                              if sg = [] \<or> CHR 0x0A \<in> set sg then None
                              else Some [s, takeWhile is_digit r1, takeWhile is_digit r2, sg])))"

text \<open>\<^verbatim>\<open>\s\<close> of Go's regular expressions is tab, newline, form feed, carriage
  return and space; \<^verbatim>\<open>^Basic (\S+)$\<close>.\<close>

definition is_space :: "char \<Rightarrow> bool" where
  "is_space c = (c \<in> {CHR 0x09, CHR 0x0A, CHR 0x0C, CHR 0x0D, CHR '' ''})"

definition authBasicRegex :: "string \<Rightarrow> string list option" where
  "authBasicRegex s =
     (case strip_prefix ''Basic '' s of
        None \<Rightarrow> None
      | Some tok \<Rightarrow> if tok = [] \<or> list_ex is_space tok then None else Some [s, tok])"

text \<open>\<^verbatim>\<open>strings.Split(s, ":")\<close>, for a one-byte separator.\<close>

fun split_on :: "char \<Rightarrow> string \<Rightarrow> string list" where
  "split_on c [] = [[]]"
| "split_on c (x # xs) =
     (if x = c then [] # split_on c xs
      else (case split_on c xs of [] \<Rightarrow> [[x]] | p # ps \<Rightarrow> (x # p) # ps))"

section \<open>Authorization\<close>

text \<open>\<^verbatim>\<open>authHmacFormat\<close>, the header a client sends, and the text that is
  signed, \<^verbatim>\<open>fmt.Sprintf("%d:%d:%s:%s", timestamp, ttlSecs, r.Method, r.URL.Path)\<close>.\<close>

definition authHmacFormat :: "int \<Rightarrow> int \<Rightarrow> string \<Rightarrow> string" where
  "authHmacFormat timestamp ttl sg = ''HMAC '' @ fmt_d timestamp @ '' '' @ fmt_d ttl @ '' '' @ sg"

definition hmac_data :: "int \<Rightarrow> int \<Rightarrow> string \<Rightarrow> string \<Rightarrow> bytes" where
  "hmac_data timestamp ttlSecs m p =
     fmt_d timestamp @ '':'' @ fmt_d ttlSecs @ '':'' @ m @ '':'' @ p"

text \<open>\<^verbatim>\<open>authorizeHmac\<close>.  \<open>now\<close> is \<^verbatim>\<open>time.Now()\<close> in nanoseconds since the
  epoch.\<close>

definition authorizeHmac :: "deps \<Rightarrow> Key \<Rightarrow> int \<Rightarrow> request \<Rightarrow> string list \<Rightarrow> error + unit" where
  "authorizeHmac d key now r matches =
     (case Atoi (matches ! 1) of
        None \<Rightarrow> Inl ErrHTTPUnauthorized
      | Some timestamp \<Rightarrow>
     (case Atoi (matches ! 2) of
        None \<Rightarrow> Inl ErrHTTPUnauthorized
      | Some ttlSecs \<Rightarrow>
     (case b64decode d (matches ! 3) of
        None \<Rightarrow> Inl ErrHTTPUnauthorized
      | Some hash \<Rightarrow>
          let data = hmac_data timestamp ttlSecs (Method r) (Path r);
              rehash = hmac_sha256 d (Bytes key) data
          in if hash \<noteq> rehash then Inl ErrHTTPUnauthorized
             else let maxAge = (if ttlSecs > 0 then wrap64 (second * ttlSecs) else defaultMaxAuthAge)
                  in if maxAge > 0 \<and> Since_Unix now timestamp > maxAge
                     then Inl ErrHTTPUnauthorized
                     else Inr ())))"

text \<open>\<^verbatim>\<open>authorizeBasic\<close>.\<close>

definition authorizeBasic :: "deps \<Rightarrow> Key \<Rightarrow> string list \<Rightarrow> error + unit" where
  "authorizeBasic d key matches =
     (case b64decode d (matches ! 1) of
        None \<Rightarrow> Inl ErrHTTPUnauthorized
      | Some userPassBytes \<Rightarrow>
          let userPassParts = split_on CHR '':'' userPassBytes
          in if length userPassParts \<noteq> 2 then Inl ErrHTTPUnauthorized
             else if DeriveKey d (userPassParts ! 1) (Salt key) \<noteq> Bytes key
                  then Inl ErrHTTPUnauthorized
                  else Inr ())"

text \<open>The Authorization value that \<^verbatim>\<open>authorize\<close> works on: the header, or the
  decoded first value of the query parameter when there is one.\<close>

definition auth_value :: "deps \<Rightarrow> request \<Rightarrow> error + string" where
  "auth_value d r =
     (case Query r queryParamAuth of
        Some (e # es) \<Rightarrow>
          (case b64decode d e of
             None \<Rightarrow> Inl ErrHTTPUnauthorized
           | Some queryAuth \<Rightarrow> Inr queryAuth)
      | _ \<Rightarrow> Inr (Header_Get r ''Authorization''))"

definition authorize :: "deps \<Rightarrow> Config \<Rightarrow> int \<Rightarrow> request \<Rightarrow> error + unit" where
  "authorize d cfg now r =
     (case Key cfg of
        None \<Rightarrow> Inr ()
      | Some key \<Rightarrow>
          (case auth_value d r of
             Inl e \<Rightarrow> Inl e
           | Inr auth \<Rightarrow>
               (case authHmacRegex auth of
                  Some m \<Rightarrow> authorizeHmac d key now r m
                | None \<Rightarrow>
                    (case authBasicRegex auth of
                       Some m \<Rightarrow> authorizeBasic d key m
                     | None \<Rightarrow> Inl ErrHTTPUnauthorized))))"

section \<open>Limiters\<close>

text \<open>
  Modelled from the spec: the limiter type of the package (\<^verbatim>\<open>newLimiter\<close>,
  \<^verbatim>\<open>Add\<close>, \<^verbatim>\<open>Sub\<close>, \<^verbatim>\<open>Set\<close>) is not in \<^verbatim>\<open>server.go\<close>.  The spec: a counter
  has a current value and an optional max, 0 meaning unlimited; \<open>add(n)\<close> fails
  without mutating state if a max is set and value+n would exceed it, otherwise
  increments; \<open>sub(n)\<close> decrements; \<open>set(n)\<close> overwrites unconditionally.
  \<open>None\<close> is \<^verbatim>\<open>errLimitReached\<close>.
\<close>

record limiter =
  lvalue :: int
  llimit :: int

definition newLimiter :: "int \<Rightarrow> limiter" where
  "newLimiter limit = \<lparr>lvalue = 0, llimit = limit\<rparr>"

definition limiter_Add :: "limiter \<Rightarrow> int \<Rightarrow> limiter option" where
  "limiter_Add l n =
     (if llimit l \<noteq> 0 \<and> lvalue l + n > llimit l then None
      else Some (l\<lparr>lvalue := lvalue l + n\<rparr>))"

definition limiter_Sub :: "limiter \<Rightarrow> int \<Rightarrow> limiter" where
  "limiter_Sub l n = l\<lparr>lvalue := lvalue l - n\<rparr>"

definition limiter_Set :: "limiter \<Rightarrow> int \<Rightarrow> limiter" where
  "limiter_Set l n = l\<lparr>lvalue := n\<rparr>"

section \<open>Server state, storage directory, environment\<close>

text \<open>
  The clipboard directory is an association list from file name to file; the path of
  an entry is the directory joined with its name, so the name stands for the path.
  A named pipe holds the bytes its writer has handed over and its reader has not yet
  taken; \<^verbatim>\<open>Stat\<close> reports size 0 for it.
\<close>

datatype fkind = RegularFile | NamedPipe

record fnode =
  kind :: fkind
  fdata :: bytes
  fmtime :: int

type_synonym dir = "(string \<times> fnode) list"

record visitor =
  vcountLimiter :: limiter
  lastSeen :: int

record server =
  countLimiter :: limiter
  sizeLimiter :: limiter
  visitors :: "string \<rightharpoonup> visitor"
  files :: dir

record response =
  rheaders :: "string \<rightharpoonup> string"
  rbody :: bytes
  rstatus :: "nat option"

text \<open>
  What the operating system and the peer do during one call: the clock, and which
  system calls fail.  \<open>copy_fault\<close> names the read (counted from 0) of the request
  body that fails, or the write of that chunk to the destination that fails and its
  error number.
\<close>

datatype errno = EPIPE | EIO

datatype copy_fault = ReadFault nat | WriteFault nat errno

record env =
  now :: int
  remove_fails :: "string \<Rightarrow> bool"
  readdir_fails :: bool
  meta_open_fails :: bool
  meta_write_fails :: bool
  mkfifo_fails :: bool
  file_open_fails :: bool
  copy_fault :: "copy_fault option"
  body_close_fails :: bool
  resp_write_fails :: bool
  get_open_fails :: bool

definition file_Size :: "fnode \<Rightarrow> int" where
  "file_Size f = (if kind f = NamedPipe then 0 else int (length (fdata f)))"

text \<open>\<^verbatim>\<open>os.Remove\<close>: the directory afterwards, and whether the error is nil.\<close>

definition os_Remove :: "env \<Rightarrow> dir \<Rightarrow> string \<Rightarrow> dir \<times> bool" where
  "os_Remove e fs name =
     (if map_of fs name = None \<or> remove_fails e name then (fs, False)
      else (AList.delete name fs, True))"

text \<open>\<^verbatim>\<open>os.OpenFile(name, O_CREATE|O_WRONLY|O_TRUNC, 0600)\<close> when it succeeds: a
  regular file is truncated, a missing file is created, a named pipe is opened.\<close>

definition os_OpenFile_trunc :: "env \<Rightarrow> dir \<Rightarrow> string \<Rightarrow> dir" where
  "os_OpenFile_trunc e fs name =
     (case map_of fs name of
        None \<Rightarrow> AList.update name \<lparr>kind = RegularFile, fdata = [], fmtime = now e\<rparr> fs
      | Some f \<Rightarrow>
          if kind f = NamedPipe then fs
          else AList.update name (f\<lparr>fdata := [], fmtime := now e\<rparr>) fs)"

definition file_append :: "env \<Rightarrow> dir \<Rightarrow> string \<Rightarrow> bytes \<Rightarrow> dir" where
  "file_append e fs name p =
     (case map_of fs name of
        None \<Rightarrow> fs
      | Some f \<Rightarrow> AList.update name (f\<lparr>fdata := fdata f @ p, fmtime := now e\<rparr>) fs)"

definition HasSuffix :: "string \<Rightarrow> string \<Rightarrow> bool" where
  "HasSuffix s suffix =
     (length suffix \<le> length s \<and> drop (length s - length suffix) s = suffix)"

definition reservedFiles :: "string list" where
  "reservedFiles =
     [''help'', ''version'', ''info'', ''verify'', ''static'', ''robots.txt'', ''favicon.ico'']"

text \<open>The identifiers the routes let through, \<^verbatim>\<open>(?i)([a-z0-9][-_.a-z0-9]{1,100})\<close>
  on ASCII.\<close>

definition is_alnum :: "char \<Rightarrow> bool" where
  "is_alnum c =
     (c \<in> set ''abcdefghijklmnopqrstuvwxyzABCDEFGHIJKLMNOPQRSTUVWXYZ0123456789'')"

definition is_id_char :: "char \<Rightarrow> bool" where
  "is_id_char c = (is_alnum c \<or> c \<in> set ''-_.'')"

definition valid_id :: "string \<Rightarrow> bool" where
  "valid_id i =
     (case i of
        [] \<Rightarrow> False
      | c # cs \<Rightarrow> is_alnum c \<and> 1 \<le> length cs \<and> length cs \<le> 100 \<and> list_all is_id_char cs)"

text \<open>\<^verbatim>\<open>getClipboardFile\<close>: the content file and the metadata file of an entry.\<close>

definition getClipboardFile :: "string \<Rightarrow> (string \<times> string) option" where
  "getClipboardFile i =
     (if i \<in> set reservedFiles then None else Some (i, i @ '':meta''))"

section \<open>Request parameters\<close>

definition getFileMode :: "Config \<Rightarrow> request \<Rightarrow> error + string" where
  "getFileMode cfg r =
     (case FileModesAllowed cfg of
        [] \<Rightarrow> Inl (Panic ''index out of range'')
      | m0 # ms \<Rightarrow>
          let mode = (if Header_Get r headerFileMode \<noteq> [] then Header_Get r headerFileMode
                      else if Query_Get r queryParamFileMode \<noteq> [] then Query_Get r queryParamFileMode
                      else m0)
          in if mode \<in> set (FileModesAllowed cfg) then Inr mode else Inl ErrHTTPBadRequest)"

definition getTTL :: "deps \<Rightarrow> Config \<Rightarrow> request \<Rightarrow> error + int" where
  "getTTL d cfg r =
     (let parsed =
            (if Query_Get r queryParamTTL \<noteq> [] then parseDuration d (Query_Get r queryParamTTL)
             else if Header_Get r headerTTL \<noteq> [] then parseDuration d (Header_Get r headerTTL)
             else if FileExpireAfter cfg > 0 then Some (FileExpireAfter cfg)
             else Some 0)
      in case parsed of
           None \<Rightarrow> Inl ErrHTTPBadRequest
         | Some ttl \<Rightarrow>
             if FileExpireAfter cfg > 0 \<and> ttl > FileExpireAfter cfg
             then Inr (FileExpireAfter cfg) else Inr ttl)"

definition isStream :: "request \<Rightarrow> bool" where
  "isStream r = (Header_Get r headerStream = ''yes'' \<or> Query_Get r queryParamStream = ''1'')"

definition outputFormat :: "request \<Rightarrow> string" where
  "outputFormat r =
     (if Header_Get r headerFormat = ''json'' \<or> Query_Get r queryParamFormat = ''json''
      then ''json'' else ''text'')"

section \<open>Writing the response of a PUT\<close>

text \<open>
  The status line of a response is written once: by the first \<^verbatim>\<open>WriteHeader\<close>, or
  as 200 by the first \<^verbatim>\<open>Write\<close>; a later \<^verbatim>\<open>WriteHeader\<close> changes nothing.
  \<open>rstatus\<close> is \<open>None\<close> until then.
\<close>

definition WriteHeader :: "response \<Rightarrow> nat \<Rightarrow> response" where
  "WriteHeader w code = (case rstatus w of None \<Rightarrow> w\<lparr>rstatus := Some code\<rparr> | Some c \<Rightarrow> w)"

text \<open>A write to the response fails when the peer is gone: \<open>None\<close>, and the response
  is then \<open>WriteHeader w 200\<close>, its body as it was.\<close>

definition w_Write :: "env \<Rightarrow> response \<Rightarrow> bytes \<Rightarrow> response option" where
  "w_Write e w p =
     (if resp_write_fails e then None
      else Some ((WriteHeader w 200)\<lparr>rbody := rbody w @ p\<rparr>))"

definition w_Write_ignore :: "env \<Rightarrow> bytes \<Rightarrow> response \<Rightarrow> response" where
  "w_Write_ignore e p w = (case w_Write e w p of None \<Rightarrow> WriteHeader w 200 | Some w' \<Rightarrow> w')"

definition Header_Set :: "response \<Rightarrow> string \<Rightarrow> string \<Rightarrow> response" where
  "Header_Set w k v = w\<lparr>rheaders := (rheaders w)(k \<mapsto> v)\<rparr>"

text \<open>\<^verbatim>\<open>writePutOutput\<close>: the three headers, the URL line or the JSON object,
  then the loop of a hundred writes, whose errors are dropped.\<close>

definition writePutOutput ::
  "deps \<Rightarrow> env \<Rightarrow> response \<Rightarrow> string \<Rightarrow> int \<Rightarrow> int \<Rightarrow> string \<Rightarrow> (error + unit) \<times> response" where
  "writePutOutput d e w i expires ttl format =
     (case GenerateClipURL d i ttl of
        None \<Rightarrow> (Inl (ErrOther ''generate url''), w)
      | Some url \<Rightarrow>
          let w1 = Header_Set w ''Content-Type'' ''application/octet-stream'';
              w2 = Header_Set w1 headerURL url;
              w3 = Header_Set w2 headerExpires (fmt_d expires)
          in case (if format = ''json'' then w_Write e w3 (encode_put d url expires)
                   else w_Write e w3 (url @ [CHR 0x0A])) of
               None \<Rightarrow> (Inl (ErrOther ''write''), WriteHeader w3 200)
             | Some w4 \<Rightarrow>
                 (Inr (), ((w_Write_ignore e (''hi there'' @ [CHR 0x0A])) ^^ 100) w4))"

section \<open>Expiry and the sweep\<close>

definition readMetaFile :: "deps \<Rightarrow> dir \<Rightarrow> string \<Rightarrow> metaFile option" where
  "readMetaFile d fs metafile =
     (case map_of fs metafile of
        None \<Rightarrow> None
      | Some f \<Rightarrow> decode_meta d (fdata f))"

definition isExpired :: "deps \<Rightarrow> env \<Rightarrow> Config \<Rightarrow> dir \<Rightarrow> fnode \<Rightarrow> string \<Rightarrow> bool" where
  "isExpired d e cfg fs info metafile =
     (case readMetaFile d fs metafile of
        Some mf \<Rightarrow>
          if Expires mf > 0 then Since_Unix (now e) (Expires mf) > 0 else False
      | None \<Rightarrow>
          if FileExpireAfter cfg = 0 \<or> sat64 (now e - fmtime info) \<le> FileExpireAfter cfg
          then False else True)"

text \<open>\<^verbatim>\<open>maybeExpire\<close>: the directory afterwards and the returned flag.\<close>

definition maybeExpire :: "deps \<Rightarrow> env \<Rightarrow> Config \<Rightarrow> dir \<Rightarrow> string \<Rightarrow> fnode \<Rightarrow> dir \<times> bool" where
  "maybeExpire d e cfg fs name info =
     (if \<not> isExpired d e cfg fs info (name @ '':meta'') then (fs, False)
      else case os_Remove e fs name of
             (fs1, False) \<Rightarrow> (fs1, False)
           | (fs1, True) \<Rightarrow>
               (case os_Remove e fs1 (name @ '':meta'') of
                  (fs2, False) \<Rightarrow> (fs2, False)
                | (fs2, True) \<Rightarrow> (fs2, True)))"

text \<open>The loop of \<^verbatim>\<open>updateStatsAndExpire\<close> over the listing that
  \<^verbatim>\<open>ioutil.ReadDir\<close> returned.\<close>

fun sweep :: "deps \<Rightarrow> env \<Rightarrow> Config \<Rightarrow> (string \<times> fnode) list \<Rightarrow> dir \<Rightarrow> int \<Rightarrow> int \<Rightarrow> dir \<times> int \<times> int" where
  "sweep d e cfg [] fs numFiles totalSize = (fs, numFiles, totalSize)"
| "sweep d e cfg ((name, info) # rest) fs numFiles totalSize =
     (if HasSuffix name '':meta'' then sweep d e cfg rest fs numFiles totalSize
      else case maybeExpire d e cfg fs name info of
             (fs', True) \<Rightarrow> sweep d e cfg rest fs' numFiles totalSize
           | (fs', False) \<Rightarrow> sweep d e cfg rest fs' (numFiles + 1) (totalSize + file_Size info))"

definition expire_visitors :: "env \<Rightarrow> (string \<rightharpoonup> visitor) \<Rightarrow> (string \<rightharpoonup> visitor)" where
  "expire_visitors e vs =
     (\<lambda>ip. case vs ip of
             None \<Rightarrow> None
           | Some v \<Rightarrow> if sat64 (now e - lastSeen v) > visitorExpungeAfter then None else Some v)"

definition updateStatsAndExpire :: "deps \<Rightarrow> env \<Rightarrow> Config \<Rightarrow> server \<Rightarrow> server" where
  "updateStatsAndExpire d e cfg s =
     (let s1 = s\<lparr>visitors := expire_visitors e (visitors s)\<rparr>
      in if readdir_fails e then s1
         else case sweep d e cfg (files s1) (files s1) 0 0 of
                (fs', numFiles, totalSize) \<Rightarrow>
                  s1\<lparr>countLimiter := limiter_Set (countLimiter s1) numFiles,
                     sizeLimiter := limiter_Set (sizeLimiter s1) totalSize,
                     files := fs'\<rparr>)"

section \<open>Reading an entry\<close>

text \<open>\<^verbatim>\<open>io.Copy\<close> from a file to the response writes nothing for an empty file.\<close>

definition copy_to_response :: "env \<Rightarrow> response \<Rightarrow> bytes \<Rightarrow> response option" where
  "copy_to_response e w p = (if p = [] then Some w else w_Write e w p)"

definition handleClipboardGet ::
  "env \<Rightarrow> server \<Rightarrow> response \<Rightarrow> string \<Rightarrow> (error + unit) \<times> server \<times> response" where
  "handleClipboardGet e s w i =
     (case getClipboardFile i of
        None \<Rightarrow> (Inl ErrHTTPBadRequest, s, w)
      | Some (file, metafile) \<Rightarrow>
          (case map_of (files s) file of
             None \<Rightarrow> (Inl ErrHTTPNotFound, s, w)
           | Some stat \<Rightarrow>
               let w1 = (if kind stat \<noteq> NamedPipe
                         then Header_Set w ''Length'' (fmt_d (file_Size stat)) else w)
               in if get_open_fails e then (Inl ErrHTTPNotFound, s, w1)
                  else (case copy_to_response e w1 (fdata stat) of
                          None \<Rightarrow> (Inl (ErrOther ''copy''), s, WriteHeader w1 200)
                        | Some w2 \<Rightarrow>
                            if kind stat = NamedPipe
                            then (Inr (), s\<lparr>files := fst (os_Remove e (files s) file)\<rparr>, w2)
                            else (Inr (), s, w2))))"

section \<open>Writing an entry\<close>

text \<open>\<^verbatim>\<open>getVisitor\<close>: the key of the visitor in the map, the visitor, and the
  server with the visitor created or its \<^verbatim>\<open>lastSeen\<close> refreshed.\<close>

definition getVisitor :: "deps \<Rightarrow> env \<Rightarrow> server \<Rightarrow> request \<Rightarrow> string \<times> visitor \<times> server" where
  "getVisitor d e s r =
     (let ip = (case SplitHostPort d (RemoteAddr r) of None \<Rightarrow> RemoteAddr r | Some h \<Rightarrow> h)
      in case visitors s ip of
           None \<Rightarrow>
             (let v = \<lparr>vcountLimiter = newLimiter visitorCountLimit, lastSeen = now e\<rparr>
              in (ip, v, s\<lparr>visitors := (visitors s)(ip \<mapsto> v)\<rparr>))
         | Some v0 \<Rightarrow>
             (let v = v0\<lparr>lastSeen := now e\<rparr>
              in (ip, v, s\<lparr>visitors := (visitors s)(ip \<mapsto> v)\<rparr>)))"

text \<open>The existence check of \<^verbatim>\<open>handleClipboardPut\<close>: \<open>None\<close> lets the write go
  on.\<close>

definition put_admit ::
  "deps \<Rightarrow> env \<Rightarrow> server \<Rightarrow> request \<Rightarrow> string \<Rightarrow> string \<Rightarrow> error option \<times> server" where
  "put_admit d e s r file metafile =
     (case map_of (files s) file of
        None \<Rightarrow>
          (case limiter_Add (countLimiter s) 1 of
             None \<Rightarrow> (Some ErrHTTPTooManyRequests, s)
           | Some l \<Rightarrow> (None, s\<lparr>countLimiter := l\<rparr>))
      | Some stat \<Rightarrow>
          (case getVisitor d e s r of
             (ip, v, s1) \<Rightarrow>
               (case limiter_Add (vcountLimiter v) 1 of
                  None \<Rightarrow> (Some ErrHTTPTooManyRequests, s1)
                | Some l \<Rightarrow>
                    let s2 = s1\<lparr>visitors := (visitors s1)(ip \<mapsto> v\<lparr>vcountLimiter := l\<rparr>)\<rparr>
                    in (case readMetaFile d (files s2) metafile of
                          None \<Rightarrow> (Some (ErrOther ''read meta''), s2)
                        | Some m \<Rightarrow>
                            if Mode m = modeReadOnly d then (Some ErrHTTPMethodNotAllowed, s2)
                            else (None, s2)))))"

definition write_metafile :: "deps \<Rightarrow> env \<Rightarrow> dir \<Rightarrow> string \<Rightarrow> metaFile \<Rightarrow> error option \<times> dir" where
  "write_metafile d e fs metafile m =
     (if meta_open_fails e then (Some (ErrOther ''open meta''), fs)
      else let fs1 = os_OpenFile_trunc e fs metafile
           in if meta_write_fails e then (Some (ErrOther ''encode meta''), fs1)
              else (None, file_append e fs1 metafile (encode_meta d m)))"

text \<open>\<^verbatim>\<open>unix.Mkfifo\<close> fails on an existing name.\<close>

definition os_Mkfifo :: "env \<Rightarrow> dir \<Rightarrow> string \<Rightarrow> dir option" where
  "os_Mkfifo e fs name =
     (if \<not> mkfifo_fails e \<and> map_of fs name = None
      then Some (AList.update name \<lparr>kind = NamedPipe, fdata = [], fmtime = now e\<rparr> fs)
      else None)"

text \<open>The streaming step of \<^verbatim>\<open>handleClipboardPut\<close>.\<close>

definition put_stream_setup ::
  "deps \<Rightarrow> env \<Rightarrow> server \<Rightarrow> response \<Rightarrow> request \<Rightarrow> string \<Rightarrow> string \<Rightarrow> int \<Rightarrow> int \<Rightarrow> string
     \<Rightarrow> error option \<times> server \<times> response" where
  "put_stream_setup d e s w r i file expires ttl format =
     (if isStream r then
        (case os_Mkfifo e (files s) file of
           None \<Rightarrow> (Some (ErrOther ''mkfifo''), s\<lparr>countLimiter := limiter_Sub (countLimiter s) 1\<rparr>, w)
         | Some fs1 \<Rightarrow>
             (case writePutOutput d e w i expires ttl format of
                (Inl err, w1) \<Rightarrow>
                  (Some err, s\<lparr>countLimiter := limiter_Sub (countLimiter s) 1, files := fs1\<rparr>, w1)
              | (Inr u, w1) \<Rightarrow> (None, s\<lparr>files := fs1\<rparr>, w1)))
      else (None, s, w))"

datatype copy_error = errLimitReached | ReadError | WriteError errno

definition write_fault_at :: "env \<Rightarrow> nat \<Rightarrow> errno option" where
  "write_fault_at e k =
     (case copy_fault e of
        Some (WriteFault j en) \<Rightarrow> if j = k then Some en else None
      | _ \<Rightarrow> None)"

text \<open>
  Modelled from the spec: the limiting writer (\<^verbatim>\<open>newLimitWriter\<close>) is not in
  \<^verbatim>\<open>server.go\<close>.  The spec: a composed limiting writer that enforces, in order, a
  per-upload byte cap and the global aggregate-size cap; any cap breach aborts the
  copy.  A chunk is charged to both limiters before it is written.
\<close>

definition limitWriter_Write ::
  "env \<Rightarrow> nat \<Rightarrow> limiter \<Rightarrow> limiter \<Rightarrow> dir \<Rightarrow> string \<Rightarrow> bytes
     \<Rightarrow> copy_error option \<times> limiter \<times> limiter \<times> dir" where
  "limitWriter_Write e k fl sl fs file p =
     (case limiter_Add fl (int (length p)) of
        None \<Rightarrow> (Some errLimitReached, fl, sl, fs)
      | Some fl' \<Rightarrow>
          (case limiter_Add sl (int (length p)) of
             None \<Rightarrow> (Some errLimitReached, fl', sl, fs)
           | Some sl' \<Rightarrow>
               (case write_fault_at e k of
                  Some en \<Rightarrow> (Some (WriteError en), fl', sl', fs)
                | None \<Rightarrow> (None, fl', sl', file_append e fs file p))))"

text \<open>\<^verbatim>\<open>io.Copy(limitWriter, r.Body)\<close>: the body arrives in the chunks its reads
  return; an empty read is not written.  The result is the error, the global size
  limiter and the directory.\<close>

fun io_Copy ::
  "env \<Rightarrow> nat \<Rightarrow> limiter \<Rightarrow> limiter \<Rightarrow> dir \<Rightarrow> string \<Rightarrow> bytes list
     \<Rightarrow> copy_error option \<times> limiter \<times> dir" where
  "io_Copy e k fl sl fs file [] =
     (if copy_fault e = Some (ReadFault k) then (Some ReadError, sl, fs) else (None, sl, fs))"
| "io_Copy e k fl sl fs file (p # ps) =
     (if copy_fault e = Some (ReadFault k) then (Some ReadError, sl, fs)
      else if p = [] then io_Copy e (Suc k) fl sl fs file ps
      else case limitWriter_Write e k fl sl fs file p of
             (Some err, fl', sl', fs') \<Rightarrow> (Some err, sl', fs')
           | (None, fl', sl', fs') \<Rightarrow> io_Copy e (Suc k) fl' sl' fs' file ps)"

definition copy_error_result :: "copy_error \<Rightarrow> error" where
  "copy_error_result err =
     (case err of
        WriteError EPIPE \<Rightarrow> ErrHTTPPartialContent
      | errLimitReached \<Rightarrow> ErrHTTPPayloadTooLarge
      | _ \<Rightarrow> ErrOther ''copy'')"

text \<open>\<^verbatim>\<open>handleClipboardPut\<close> from the copy on, the destination being open.\<close>

definition put_copy_and_output ::
  "deps \<Rightarrow> env \<Rightarrow> Config \<Rightarrow> server \<Rightarrow> response \<Rightarrow> request \<Rightarrow> bytes list \<Rightarrow> string \<Rightarrow> string
     \<Rightarrow> int \<Rightarrow> int \<Rightarrow> string \<Rightarrow> (error + unit) \<times> server \<times> response" where
  "put_copy_and_output d e cfg s w r chunks i file expires ttl format =
     (case io_Copy e 0 (newLimiter (FileSizeLimit cfg)) (sizeLimiter s) (files s) file chunks of
        (Some err, sl, fs) \<Rightarrow>
          (Inl (copy_error_result err),
           s\<lparr>sizeLimiter := sl, files := fst (os_Remove e fs file)\<rparr>, w)
      | (None, sl, fs) \<Rightarrow>
          if body_close_fails e
          then (Inl (ErrOther ''close''), s\<lparr>sizeLimiter := sl, files := fst (os_Remove e fs file)\<rparr>, w)
          else if \<not> isStream r
          then (case writePutOutput d e w i expires ttl format of
                  (Inl err, w1) \<Rightarrow>
                    (Inl err, s\<lparr>sizeLimiter := sl, files := fst (os_Remove e fs file)\<rparr>, w1)
                | (Inr u, w1) \<Rightarrow> (Inr (), s\<lparr>sizeLimiter := sl, files := fs\<rparr>, w1))
          else (Inr (), s\<lparr>sizeLimiter := sl, files := fs\<rparr>, w))"

text \<open>The expiry instant of a new entry, in seconds since the epoch; 0 is never.\<close>

definition expires_at :: "env \<Rightarrow> int \<Rightarrow> int" where
  "expires_at e ttl = (if ttl > 0 then (now e + ttl) div second else 0)"

text \<open>\<^verbatim>\<open>handleClipboardPut\<close>, without the deferred sweep, which is registered only
  once the destination is open: the flag tells whether it is due.\<close>

definition put_body ::
  "deps \<Rightarrow> env \<Rightarrow> Config \<Rightarrow> server \<Rightarrow> response \<Rightarrow> request \<Rightarrow> string
     \<Rightarrow> ((error + unit) \<times> server \<times> response) \<times> bool" where
  "put_body d e cfg s w r i =
     (case getClipboardFile i of
        None \<Rightarrow> ((Inl ErrHTTPBadRequest, s, w), False)
      | Some (file, metafile) \<Rightarrow>
     (case Body r of
        None \<Rightarrow> ((Inl ErrHTTPBadRequest, s, w), False)
      | Some chunks \<Rightarrow>
     (case put_admit d e s r file metafile of
        (Some err, s1) \<Rightarrow> ((Inl err, s1, w), False)
      | (None, s1) \<Rightarrow>
     (let s2 = s1\<lparr>files := fst (os_Remove e (fst (os_Remove e (files s1) file)) metafile)\<rparr>
      in case getFileMode cfg r of
           Inl err \<Rightarrow> ((Inl err, s2, w), False)
         | Inr mode \<Rightarrow>
     (case getTTL d cfg r of
        Inl err \<Rightarrow> ((Inl err, s2, w), False)
      | Inr ttl \<Rightarrow>
     (let expires = expires_at e ttl
      in case write_metafile d e (files s2) metafile \<lparr>Mode = mode, Expires = expires\<rparr> of
           (Some err, fs3) \<Rightarrow> ((Inl err, s2\<lparr>files := fs3\<rparr>, w), False)
         | (None, fs3) \<Rightarrow>
     (case put_stream_setup d e (s2\<lparr>files := fs3\<rparr>) w r i file expires ttl (outputFormat r) of
        (Some err, s4, w4) \<Rightarrow> ((Inl err, s4, w4), False)
      | (None, s4, w4) \<Rightarrow>
          if file_open_fails e
          then ((Inl (ErrOther ''open''),
                 s4\<lparr>countLimiter := limiter_Sub (countLimiter s4) 1\<rparr>, w4), False)
          else (put_copy_and_output d e cfg
                  (s4\<lparr>files := os_OpenFile_trunc e (files s4) file\<rparr>)
                  w4 r chunks i file expires ttl (outputFormat r), True))))))))"

definition handleClipboardPut ::
  "deps \<Rightarrow> env \<Rightarrow> Config \<Rightarrow> server \<Rightarrow> response \<Rightarrow> request \<Rightarrow> string
     \<Rightarrow> (error + unit) \<times> server \<times> response" where
  "handleClipboardPut d e cfg s w r i =
     (case put_body d e cfg s w r i of
        ((res, s', w'), deferred) \<Rightarrow>
          (res, if deferred then updateStatsAndExpire d e cfg s' else s', w'))"

text \<open>\<^verbatim>\<open>newServer\<close>, over a given directory.\<close>

definition newServer :: "Config \<Rightarrow> dir \<Rightarrow> server" where
  "newServer cfg fs =
     \<lparr>countLimiter = newLimiter (ClipboardCountLimit cfg),
      sizeLimiter = newLimiter (ClipboardSizeLimit cfg),
      visitors = Map.empty,
      files = fs\<rparr>"

section \<open>The status on the wire\<close>

text \<open>\<^verbatim>\<open>http.StatusText\<close>, for the codes the server sends.\<close>

definition StatusText :: "nat \<Rightarrow> string" where
  "StatusText code =
     (if code = 206 then ''Partial Content''
      else if code = 400 then ''Bad Request''
      else if code = 401 then ''Unauthorized''
      else if code = 404 then ''Not Found''
      else if code = 405 then ''Method Not Allowed''
      else if code = 413 then ''Request Entity Too Large''
      else if code = 429 then ''Too Many Requests''
      else if code = 500 then ''Internal Server Error''
      else [])"

text \<open>\<^verbatim>\<open>fail\<close>: the status, then its text as the body.\<close>

definition fail :: "env \<Rightarrow> response \<Rightarrow> nat \<Rightarrow> response" where
  "fail e w code = w_Write_ignore e (StatusText code) (WriteHeader w code)"

text \<open>
  What \<^verbatim>\<open>handle\<close> does with the outcome of the handler of the matching route: an
  error goes to \<^verbatim>\<open>fail\<close> with its code; after a handler that returned nil, the
  server sends 200 if no status has been written yet.  A panic ends the connection
  with the response as it is.
\<close>

definition handle_outcome :: "env \<Rightarrow> (error + unit) \<times> server \<times> response \<Rightarrow> server \<times> response" where
  "handle_outcome e out =
     (case out of
        (Inl (Panic msg), s, w) \<Rightarrow> (s, w)
      | (Inl err, s, w) \<Rightarrow> (s, fail e w (status_code err))
      | (Inr u, s, w) \<Rightarrow> (s, WriteHeader w 200))"

text \<open>A response on which nothing has been written.\<close>

definition blank :: response where
  "blank = \<lparr>rheaders = Map.empty, rbody = [], rstatus = None\<rparr>"

section \<open>Runs of writes\<close>

text \<open>The content files of a directory listing: the entries that the sweep does not
  skip as metadata.\<close>

definition content_files :: "dir \<Rightarrow> (string \<times> fnode) list" where
  "content_files fs = filter (\<lambda>(n, info). \<not> HasSuffix n '':meta'') fs"

text \<open>The number of content files the directory has once the entry \<open>i\<close> is in it.\<close>

definition content_count_with :: "string \<Rightarrow> dir \<Rightarrow> int" where
  "content_count_with i fs =
     int (length (content_files fs)) + (if map_of fs i = None then 1 else 0)"

text \<open>No content file of the directory is expired at the clock of \<open>e\<close>.\<close>

definition nothing_expired :: "deps \<Rightarrow> env \<Rightarrow> Config \<Rightarrow> dir \<Rightarrow> bool" where
  "nothing_expired d e cfg fs =
     list_all (\<lambda>(n, info). \<not> isExpired d e cfg fs info (n @ '':meta'')) (content_files fs)"

text \<open>
  A run of writes, each on the store the one before left.  The result is the store
  after the run if every write was to a permitted identifier with no entry yet and
  succeeded, and nothing was expired in the directory its deferred sweep found;
  otherwise there is none.
\<close>

fun new_entry_writes :: "deps \<Rightarrow> Config \<Rightarrow> server \<Rightarrow> (env \<times> request \<times> string) list \<Rightarrow> server option" where
  "new_entry_writes d cfg s [] = Some s"
| "new_entry_writes d cfg s ((e, r, i) # ws) =
     (if valid_id i \<and> map_of (files s) i = None
         \<and> fst (handleClipboardPut d e cfg s blank r i) = Inr ()
         \<and> nothing_expired d e cfg
               (files (fst (snd (fst (put_body d e cfg s blank r i)))))
      then new_entry_writes d cfg
             (fst (snd (handleClipboardPut d e cfg s blank r i))) ws
      else None)"

section \<open>Sample collaborators\<close>

text \<open>
  An instance of \<open>deps\<close> for running the model on concrete requests: standard base64
  with padding; a message authentication code and a key derivation that only join
  their arguments; a metadata codec that writes the mode, a space and the expiry.
\<close>

definition b64_alphabet :: string where
  "b64_alphabet = ''ABCDEFGHIJKLMNOPQRSTUVWXYZabcdefghijklmnopqrstuvwxyz0123456789+/''"

fun index_of :: "char \<Rightarrow> string \<Rightarrow> nat option" where
  "index_of c [] = None"
| "index_of c (x # xs) = (if c = x then Some 0 else map_option Suc (index_of c xs))"

definition byte :: "nat \<Rightarrow> char" where
  "byte n = char_of n"

fun b64_std :: "string \<Rightarrow> bytes option" where
  "b64_std [] = Some []"
| "b64_std (a # b # c # x # rest) =
     (case (index_of a b64_alphabet, index_of b b64_alphabet) of
        (Some i, Some j) \<Rightarrow>
          if c = CHR ''=''
          then (if x = CHR ''='' \<and> rest = [] then Some [byte (4 * i + j div 16)] else None)
          else (case index_of c b64_alphabet of
                  None \<Rightarrow> None
                | Some k \<Rightarrow>
                    if x = CHR ''=''
                    then (if rest = []
                          then Some [byte (4 * i + j div 16), byte (16 * (j mod 16) + k div 4)]
                          else None)
                    else (case index_of x b64_alphabet of
                            None \<Rightarrow> None
                          | Some l \<Rightarrow>
                              (case b64_std rest of
                                 None \<Rightarrow> None
                               | Some bs \<Rightarrow>
                                   Some (byte (4 * i + j div 16)
                                         # byte (16 * (j mod 16) + k div 4)
                                         # byte (64 * (k mod 4) + l) # bs))))
      | _ \<Rightarrow> None)"
| "b64_std _ = None"

definition sample_decode_meta :: "bytes \<Rightarrow> metaFile option" where
  "sample_decode_meta bs =
     (case split_on CHR '' '' bs of
        [m, x] \<Rightarrow> (case Atoi x of None \<Rightarrow> None | Some n \<Rightarrow> Some \<lparr>Mode = m, Expires = n\<rparr>)
      | _ \<Rightarrow> None)"

definition sample_deps :: deps where
  "sample_deps =
     \<lparr>b64decode = b64_std,
      hmac_sha256 = (\<lambda>key data. key @ ''|'' @ data),
      DeriveKey = (\<lambda>password salt. salt @ password),
      GenerateClipURL = (\<lambda>i ttl. Some (''https://host/'' @ i)),
      parseDuration = (\<lambda>s. map_option (\<lambda>n. n * second) (Atoi s)),
      encode_put = (\<lambda>url expires. ''{\"url\":\"'' @ url @ ''\",\"expires\":'' @ fmt_d expires @ ''}'' @ [CHR 0x0A]),
      encode_meta = (\<lambda>m. Mode m @ '' '' @ fmt_d (Expires m)),
      decode_meta = sample_decode_meta,
      SplitHostPort = (\<lambda>a. case split_on CHR '':'' a of [h, p] \<Rightarrow> Some h | _ \<Rightarrow> None),
      modeReadOnly = ''ro''\<rparr>"

definition sample_config :: Config where
  "sample_config =
     \<lparr>Key = Some \<lparr>Bytes = ''saltsecret'', Salt = ''salt''\<rparr>,
      ClipboardCountLimit = 2,
      ClipboardSizeLimit = 20,
      FileSizeLimit = 8,
      FileExpireAfter = 0,
      FileModesAllowed = [''rw'', ''ro'']\<rparr>"

definition quiet :: "int \<Rightarrow> env" where
  "quiet t =
     \<lparr>now = t, remove_fails = (\<lambda>name. False), readdir_fails = False,
      meta_open_fails = False, meta_write_fails = False, mkfifo_fails = False,
      file_open_fails = False, copy_fault = None, body_close_fails = False,
      resp_write_fails = False, get_open_fails = False\<rparr>"

definition sample_request :: "string \<Rightarrow> string \<Rightarrow> bytes list \<Rightarrow> request" where
  "sample_request m p chunks =
     \<lparr>Method = m, Path = p, Header = Map.empty, Query = Map.empty,
      Body = Some chunks, RemoteAddr = ''10.0.0.1:4000''\<rparr>"


definition hmac_request :: "int \<Rightarrow> int \<Rightarrow> string \<Rightarrow> request" where
  "hmac_request ts ttl sg =
     (sample_request ''GET'' ''/abc123'' [])
       \<lparr>Header := [''Authorization'' \<mapsto> authHmacFormat ts ttl sg]\<rparr>"

definition basic_request :: "string \<Rightarrow> request" where
  "basic_request tok =
     (sample_request ''GET'' ''/abc123'' [])\<lparr>Header := [''Authorization'' \<mapsto> ''Basic '' @ tok]\<rparr>"

definition stored :: dir where
  "stored =
     [(''abc123:meta'', \<lparr>kind = RegularFile, fdata = ''rw 0'', fmtime = 5\<rparr>),
      (''abc123'', \<lparr>kind = RegularFile, fdata = ''hello'', fmtime = 5\<rparr>)]"

definition stream_request :: "bytes list \<Rightarrow> request" where
  "stream_request chunks =
     (sample_request ''PUT'' ''/abc123'' chunks)\<lparr>Header := [headerStream \<mapsto> ''yes'']\<rparr>"

definition ttl_request :: "string \<Rightarrow> string \<Rightarrow> bytes list \<Rightarrow> request" where
  "ttl_request p t chunks =
     (sample_request ''PUT'' p chunks)\<lparr>Query := [queryParamTTL \<mapsto> [t]]\<rparr>"

text \<open>The store that a write leaves.\<close>

definition store_after :: "env \<Rightarrow> server \<Rightarrow> request \<Rightarrow> string \<Rightarrow> server" where
  "store_after e s r i =
     fst (snd (handleClipboardPut sample_deps e sample_config s blank r i))"

section \<open>Basic facts about the clock\<close>

lemma wrap64_id: "minInt64 \<le> x \<Longrightarrow> x \<le> maxInt64 \<Longrightarrow> wrap64 x = x"
  by (simp add: wrap64_def minInt64_def maxInt64_def)

lemma sat64_gt: "0 < m \<Longrightarrow> m < maxInt64 \<Longrightarrow> (m < sat64 x) = (m < x)"
  by (auto simp: sat64_def minInt64_def maxInt64_def)

lemma sat64_pos: "(0 < sat64 x) = (0 < x)"
  by (auto simp: sat64_def maxInt64_def minInt64_def)

lemma Since_Unix_plain:
  assumes "0 \<le> sec" and "sec \<le> maxInt64 - unixToInternal"
  shows "Since_Unix t sec = sat64 (t - sec * second)"
proof -
  have "wrap64 (sec + unixToInternal) = sec + unixToInternal"
    using assms by (intro wrap64_id) (simp_all add: minInt64_def maxInt64_def unixToInternal_def)
  then show ?thesis by (simp add: Since_Unix_def second_def algebra_simps)
qed

section \<open>Basic facts about the storage directory\<close>

lemma colon_not_alnum: "\<not> is_alnum CHR '':''"
  by (simp add: is_alnum_def)

lemma colon_not_id_char: "\<not> is_id_char CHR '':''"
  by (simp add: is_id_char_def colon_not_alnum)

lemma valid_id_no_colon:
  assumes "valid_id i"
  shows "CHR '':'' \<notin> set i"
proof
  assume c: "CHR '':'' \<in> set i"
  from assms obtain x xs where i: "i = x # xs" and x: "is_alnum x" and xs: "list_all is_id_char xs"
    by (cases i) (auto simp: valid_id_def)
  from c i have "CHR '':'' = x \<or> CHR '':'' \<in> set xs" by auto
  then show False
  proof
    assume "CHR '':'' = x"
    with x colon_not_alnum show False by simp
  next
    assume "CHR '':'' \<in> set xs"
    with xs have "is_id_char CHR '':''" by (simp add: list_all_iff)
    with colon_not_id_char show False by simp
  qed
qed

lemma HasSuffix_iff: "HasSuffix s suffix \<longleftrightarrow> (\<exists>p. s = p @ suffix)"
proof
  assume h: "HasSuffix s suffix"
  have "s = take (length s - length suffix) s @ drop (length s - length suffix) s"
    by simp
  with h have "s = take (length s - length suffix) s @ suffix"
    by (simp add: HasSuffix_def)
  then show "\<exists>p. s = p @ suffix" ..
next
  assume "\<exists>p. s = p @ suffix"
  then show "HasSuffix s suffix" by (auto simp: HasSuffix_def)
qed

lemma HasSuffix_append: "HasSuffix (n @ s) s"
  by (auto simp: HasSuffix_iff)

lemma HasSuffix_meta_colon: "HasSuffix n '':meta'' \<Longrightarrow> CHR '':'' \<in> set n"
  by (auto simp: HasSuffix_iff)

lemma meta_name_neq: "CHR '':'' \<notin> set i \<Longrightarrow> n @ '':meta'' \<noteq> i"
  by auto

lemma map_of_delete: "map_of (AList.delete k fs) k' = (if k' = k then None else map_of fs k')"
  by (simp add: delete_conv')

lemma map_of_update: "map_of (AList.update k v fs) k' = (if k' = k then Some v else map_of fs k')"
  by (simp add: update_conv')

lemma os_Remove_map_of:
  "map_of (fst (os_Remove e fs n)) k =
     (if k = n \<and> \<not> remove_fails e n then None else map_of fs k)"
  by (auto simp: os_Remove_def map_of_delete)

lemma os_Remove_other: "k \<noteq> n \<Longrightarrow> map_of (fst (os_Remove e fs n)) k = map_of fs k"
  by (simp add: os_Remove_map_of)

lemma os_Remove_absent: "map_of fs k = None \<Longrightarrow> map_of (fst (os_Remove e fs n)) k = None"
  by (simp add: os_Remove_map_of)

lemma os_Remove_gone: "\<not> remove_fails e n \<Longrightarrow> map_of (fst (os_Remove e fs n)) n = None"
  by (simp add: os_Remove_map_of)

lemma maybeExpire_other:
  assumes "k \<noteq> n" and "k \<noteq> n @ '':meta''"
  shows "map_of (fst (maybeExpire d e cfg fs n info)) k = map_of fs k"
  using assms
  by (auto simp: maybeExpire_def os_Remove_def map_of_delete split: prod.splits if_splits)


lemma maybeExpire_not_expired:
  "\<not> isExpired d e cfg fs info (n @ '':meta'') \<Longrightarrow> maybeExpire d e cfg fs n info = (fs, False)"
  by (simp add: maybeExpire_def)



lemma concat_replicate_comm: "concat (replicate n p) @ p = p @ concat (replicate n p)"
  by (induction n) auto

lemma WriteHeader_simps:
  "rbody (WriteHeader w c) = rbody w"
  "rheaders (WriteHeader w c) = rheaders w"
  "rstatus (WriteHeader w c) = Some (case rstatus w of None \<Rightarrow> c | Some c0 \<Rightarrow> c0)"
  "WriteHeader (WriteHeader w c) c' = WriteHeader w c"
  "WriteHeader (w\<lparr>rbody := b\<rparr>) c = (WriteHeader w c)\<lparr>rbody := b\<rparr>"
  by (simp_all add: WriteHeader_def split: option.splits)

lemma funpow_w_Write_ignore:
  "((w_Write_ignore e p) ^^ n) (WriteHeader w 200) =
     (if resp_write_fails e then WriteHeader w 200
      else (WriteHeader w 200)\<lparr>rbody := rbody w @ concat (replicate n p)\<rparr>)"
proof (cases "resp_write_fails e")
  case True
  then have "\<And>v. w_Write_ignore e p (WriteHeader v 200) = WriteHeader v 200"
    by (simp add: w_Write_ignore_def w_Write_def WriteHeader_simps)
  then have "((w_Write_ignore e p) ^^ n) (WriteHeader w 200) = WriteHeader w 200"
    by (induction n) simp_all
  with True show ?thesis by simp
next
  case False
  then have f: "\<And>v. w_Write_ignore e p (WriteHeader v 200) = (WriteHeader v 200)\<lparr>rbody := rbody v @ p\<rparr>"
    by (simp add: w_Write_ignore_def w_Write_def WriteHeader_simps)
  have "((w_Write_ignore e p) ^^ n) (WriteHeader w 200)
          = (WriteHeader w 200)\<lparr>rbody := rbody w @ concat (replicate n p)\<rparr>"
  proof (induction n)
    case 0
    then show ?case by (simp add: WriteHeader_simps [symmetric])
  next
    case (Suc n)
    have "w_Write_ignore e p ((WriteHeader w 200)\<lparr>rbody := rbody w @ concat (replicate n p)\<rparr>)
            = (WriteHeader w 200)\<lparr>rbody := rbody w @ concat (replicate n p) @ p\<rparr>"
      using f [of "w\<lparr>rbody := rbody w @ concat (replicate n p)\<rparr>"]
      by (simp add: WriteHeader_simps)
    with Suc show ?case by (simp add: concat_replicate_comm)
  qed
  with False show ?thesis by simp
qed

text \<open>The loop of \<^verbatim>\<open>writePutOutput\<close> in closed form.\<close>

lemma writePutOutput_closed [code]:
  "writePutOutput d e w i expires ttl format =
     (case GenerateClipURL d i ttl of
        None \<Rightarrow> (Inl (ErrOther ''generate url''), w)
      | Some url \<Rightarrow>
          let w3 = Header_Set (Header_Set (Header_Set w ''Content-Type'' ''application/octet-stream'')
                     headerURL url) headerExpires (fmt_d expires)
          in if resp_write_fails e then (Inl (ErrOther ''write''), WriteHeader w3 200)
             else (Inr (),
                   (WriteHeader w3 200)\<lparr>rbody := rbody w3
                          @ (if format = ''json'' then encode_put d url expires else url @ [CHR 0x0A])
                          @ concat (replicate 100 (''hi there'' @ [CHR 0x0A]))\<rparr>))"
proof (cases "GenerateClipURL d i ttl")
  case None
  then show ?thesis by (simp add: writePutOutput_def)
next
  case (Some url)
  define w3 where "w3 = Header_Set (Header_Set (Header_Set w ''Content-Type'' ''application/octet-stream'')
                     headerURL url) headerExpires (fmt_d expires)"
  define first where "first = (if format = ''json'' then encode_put d url expires else url @ [CHR 0x0A])"
  have pick: "(if format = ''json'' then w_Write e w3 (encode_put d url expires)
               else w_Write e w3 (url @ [CHR 0x0A])) = w_Write e w3 first"
    by (simp add: first_def)
  have unf: "writePutOutput d e w i expires ttl format =
     (case w_Write e w3 first of
        None \<Rightarrow> (Inl (ErrOther ''write''), WriteHeader w3 200)
      | Some w4 \<Rightarrow> (Inr (), ((w_Write_ignore e (''hi there'' @ [CHR 0x0A])) ^^ 100) w4))"
    unfolding writePutOutput_def Let_def Some option.case w3_def [symmetric] pick ..
  show ?thesis
  proof (cases "resp_write_fails e")
    case True
    then have "w_Write e w3 first = None" by (simp add: w_Write_def)
    with True Some show ?thesis
      unfolding unf by (simp add: Let_def w3_def)
  next
    case False
    then have ww: "w_Write e w3 first = Some (WriteHeader (w3\<lparr>rbody := rbody w3 @ first\<rparr>) 200)"
      by (simp add: w_Write_def WriteHeader_simps)
    have "((w_Write_ignore e (''hi there'' @ [CHR 0x0A])) ^^ 100)
             (WriteHeader (w3\<lparr>rbody := rbody w3 @ first\<rparr>) 200)
          = (WriteHeader w3 200)\<lparr>rbody := rbody w3 @ first
                 @ concat (replicate 100 (''hi there'' @ [CHR 0x0A]))\<rparr>"
      unfolding funpow_w_Write_ignore using False by (simp add: WriteHeader_simps)
    with False Some ww show ?thesis
      unfolding unf by (simp add: Let_def w3_def first_def del: funpow.simps)
  qed
qed

lemma writePutOutput_ok:
  assumes "GenerateClipURL d i ttl = Some url" and "\<not> resp_write_fails e"
  shows "writePutOutput d e w i expires ttl format =
     (Inr (),
      w\<lparr>rheaders := (rheaders w)(''Content-Type'' \<mapsto> ''application/octet-stream'',
                                  headerURL \<mapsto> url, headerExpires \<mapsto> fmt_d expires),
        rbody := rbody w @ (if format = ''json'' then encode_put d url expires else url @ [CHR 0x0A])
                   @ concat (replicate 100 (''hi there'' @ [CHR 0x0A])),
        rstatus := Some (case rstatus w of None \<Rightarrow> 200 | Some c \<Rightarrow> c)\<rparr>)"
  using assms
  by (simp add: writePutOutput_closed Let_def Header_Set_def WriteHeader_def split: option.splits)

section \<open>Facts about the copy and about reaching it\<close>

lemma limiter_Add_Some:
  "limiter_Add l n = Some l' \<Longrightarrow> lvalue l' = lvalue l + n \<and> llimit l' = llimit l"
  by (auto simp: limiter_Add_def split: if_splits)

lemma limiter_Add_None:
  "limiter_Add l n = None \<longleftrightarrow> llimit l \<noteq> 0 \<and> llimit l < lvalue l + n"
  by (auto simp: limiter_Add_def)



text \<open>A copy that ends without error has appended the whole body to the
  destination and left every other file alone.\<close>

lemma file_append_map_of:
  "map_of (file_append e fs file p) k =
     (if k = file then map_option (\<lambda>f. f\<lparr>fdata := fdata f @ p, fmtime := now e\<rparr>) (map_of fs file)
      else map_of fs k)"
  by (auto simp: file_append_def map_of_update split: option.splits)

lemma io_Copy_other:
  "k \<noteq> file \<Longrightarrow> map_of (snd (snd (io_Copy e j fl sl fs file chunks))) k = map_of fs k"
proof (induction chunks arbitrary: j fl sl fs)
  case Nil
  then show ?case by simp
next
  case (Cons p ps)
  then show ?case
    by (auto simp: limitWriter_Write_def file_append_map_of split: option.splits prod.splits)
qed

lemma io_Copy_data:
  assumes "io_Copy e j fl sl fs file chunks = (None, sl', fs')" and "map_of fs file = Some f"
  shows "\<exists>f'. map_of fs' file = Some f' \<and> fdata f' = fdata f @ concat chunks \<and> kind f' = kind f"
  using assms
proof (induction chunks arbitrary: j fl sl fs f)
  case Nil
  then show ?case by (auto split: if_splits)
next
  case (Cons p ps)
  show ?case
  proof (cases "p = []")
    case True
    with Cons.prems have "io_Copy e (Suc j) fl sl fs file ps = (None, sl', fs')"
      by (auto split: if_splits)
    from Cons.IH [OF this Cons.prems(2)] True show ?thesis by simp
  next
    case False
    from Cons.prems(1) False obtain fl1 sl1 where
      a: "limiter_Add fl (int (length p)) = Some fl1" and b: "limiter_Add sl (int (length p)) = Some sl1"
      and r: "io_Copy e (Suc j) fl1 sl1 (file_append e fs file p) file ps = (None, sl', fs')"
      by (auto simp: limitWriter_Write_def split: if_splits option.splits)
    have m: "map_of (file_append e fs file p) file = Some (f\<lparr>fdata := fdata f @ p, fmtime := now e\<rparr>)"
      using Cons.prems(2) by (simp add: file_append_map_of)
    from Cons.IH [OF r m] show ?thesis by simp
  qed
qed

lemma io_Copy_present:
  "map_of fs file \<noteq> None \<Longrightarrow> map_of (snd (snd (io_Copy e j fl sl fs file chunks))) file \<noteq> None"
proof (induction chunks arbitrary: j fl sl fs)
  case Nil
  then show ?case by simp
next
  case (Cons p ps)
  then show ?case
    by (auto simp: limitWriter_Write_def file_append_map_of split: option.splits prod.splits)
qed



lemma os_OpenFile_trunc_map_of:
  "map_of (os_OpenFile_trunc e fs n) k =
     (if k = n
      then (case map_of fs n of
              None \<Rightarrow> Some \<lparr>kind = RegularFile, fdata = [], fmtime = now e\<rparr>
            | Some f \<Rightarrow> if kind f = NamedPipe then Some f
                        else Some (f\<lparr>fdata := [], fmtime := now e\<rparr>))
      else map_of fs k)"
  by (auto simp: os_OpenFile_trunc_def map_of_update split: option.splits)

lemma write_metafile_other:
  "k \<noteq> metafile \<Longrightarrow> map_of (snd (write_metafile d e fs metafile m)) k = map_of fs k"
  by (simp add: write_metafile_def Let_def os_OpenFile_trunc_map_of file_append_map_of)

lemma put_stream_setup_ok:
  assumes "put_stream_setup d e s w r i file expires ttl format = (None, s4, w4)"
  shows "sizeLimiter s4 = sizeLimiter s \<and> countLimiter s4 = countLimiter s \<and>
         visitors s4 = visitors s \<and>
         (if isStream r
          then map_of (files s) file = None \<and>
               files s4 = AList.update file \<lparr>kind = NamedPipe, fdata = [], fmtime = now e\<rparr> (files s)
          else files s4 = files s \<and> w4 = w)"
  using assms
  by (auto simp: put_stream_setup_def os_Mkfifo_def split: option.splits prod.splits sum.splits if_splits)



lemma fail_status:
  "rstatus (fail e w code) = Some (case rstatus w of None \<Rightarrow> code | Some c \<Rightarrow> c)"
  by (simp add: fail_def w_Write_ignore_def w_Write_def WriteHeader_simps split: option.splits)

text \<open>What it takes for \<^verbatim>\<open>handleClipboardPut\<close> to reach the copy of the body.\<close>

lemma put_body_deferred:
  assumes "snd (put_body d e cfg s w r i)"
  shows "\<exists>chunks s1 mode ttl fs3 s4 w4.
     i \<notin> set reservedFiles \<and> Body r = Some chunks \<and>
     put_admit d e s r i (i @ '':meta'') = (None, s1) \<and>
     getFileMode cfg r = Inr mode \<and> getTTL d cfg r = Inr ttl \<and>
     write_metafile d e (fst (os_Remove e (fst (os_Remove e (files s1) i)) (i @ '':meta'')))
        (i @ '':meta'') \<lparr>Mode = mode, Expires = expires_at e ttl\<rparr> = (None, fs3) \<and>
     put_stream_setup d e (s1\<lparr>files := fs3\<rparr>) w r i i (expires_at e ttl) ttl (outputFormat r)
        = (None, s4, w4) \<and>
     \<not> file_open_fails e \<and>
     fst (put_body d e cfg s w r i) =
       put_copy_and_output d e cfg (s4\<lparr>files := os_OpenFile_trunc e (files s4) i\<rparr>) w4 r chunks
         i i (expires_at e ttl) ttl (outputFormat r)"
proof -
  from assms have nr: "i \<notin> set reservedFiles"
    by (auto simp: put_body_def getClipboardFile_def split: if_splits)
  from assms nr obtain chunks where b: "Body r = Some chunks"
    by (cases "Body r") (auto simp: put_body_def getClipboardFile_def)
  obtain x s1 where a0: "put_admit d e s r i (i @ '':meta'') = (x, s1)"
    by (cases "put_admit d e s r i (i @ '':meta'')")
  from assms nr b a0 have x: "x = None"
    by (cases x) (auto simp: put_body_def getClipboardFile_def)
  from assms nr b a0 x obtain mode where m: "getFileMode cfg r = Inr mode"
    by (cases "getFileMode cfg r") (auto simp: put_body_def getClipboardFile_def Let_def)
  from assms nr b a0 x m obtain ttl where t: "getTTL d cfg r = Inr ttl"
    by (cases "getTTL d cfg r") (auto simp: put_body_def getClipboardFile_def Let_def)
  let ?fs2 = "fst (os_Remove e (fst (os_Remove e (files s1) i)) (i @ '':meta''))"
  obtain y fs3 where w0: "write_metafile d e ?fs2 (i @ '':meta'')
      \<lparr>Mode = mode, Expires = expires_at e ttl\<rparr> = (y, fs3)"
    by (cases "write_metafile d e ?fs2 (i @ '':meta'') \<lparr>Mode = mode, Expires = expires_at e ttl\<rparr>")
  from assms nr b a0 x m t w0 have y: "y = None"
    by (cases y) (auto simp: put_body_def getClipboardFile_def Let_def)
  obtain z s4 w4 where p0: "put_stream_setup d e (s1\<lparr>files := fs3\<rparr>) w r i i (expires_at e ttl) ttl
      (outputFormat r) = (z, s4, w4)"
    by (rule prod_cases3)
  from assms nr b a0 x m t w0 y p0 have z: "z = None"
    by (cases z) (auto simp: put_body_def getClipboardFile_def Let_def)
  from assms nr b a0 x m t w0 y p0 z have o: "\<not> file_open_fails e"
    by (auto simp: put_body_def getClipboardFile_def Let_def split: if_splits)
  from nr b a0 x m t w0 y p0 z o have "fst (put_body d e cfg s w r i) =
       put_copy_and_output d e cfg (s4\<lparr>files := os_OpenFile_trunc e (files s4) i\<rparr>) w4 r chunks
         i i (expires_at e ttl) ttl (outputFormat r)"
    by (simp add: put_body_def getClipboardFile_def Let_def)
  with nr b a0 x m t w0 y p0 z o show ?thesis by blast
qed

lemma handleClipboardPut_deferred:
  "snd (put_body d e cfg s w r i) \<Longrightarrow>
     handleClipboardPut d e cfg s w r i =
       (fst (fst (put_body d e cfg s w r i)),
        updateStatsAndExpire d e cfg (fst (snd (fst (put_body d e cfg s w r i)))),
        snd (snd (fst (put_body d e cfg s w r i))))"
  by (cases "put_body d e cfg s w r i") (auto simp: handleClipboardPut_def)


section \<open>Facts about a successful write and the sweep after it\<close>

lemma put_body_ok_deferred:
  assumes "fst (fst (put_body d e cfg s w r i)) = Inr ()"
  shows "snd (put_body d e cfg s w r i)"
proof (rule ccontr)
  assume n: "\<not> snd (put_body d e cfg s w r i)"
  have "fst (fst (put_body d e cfg s w r i)) \<noteq> Inr ()"
    using n
    by (auto simp: put_body_def Let_def
        split: option.splits prod.splits sum.splits if_splits)
  with assms show False by simp
qed

lemma handleClipboardPut_fst:
  "fst (handleClipboardPut d e cfg s w r i) = fst (fst (put_body d e cfg s w r i))"
  by (cases "put_body d e cfg s w r i") (auto simp: handleClipboardPut_def)

lemma write_metafile_ok:
  assumes "write_metafile d e fs metafile m = (None, fs3)" and "map_of fs metafile = None"
  shows "\<exists>f. map_of fs3 metafile = Some f \<and> fdata f = encode_meta d m"
  using assms
  by (auto simp: write_metafile_def Let_def os_OpenFile_trunc_map_of file_append_map_of
      split: if_splits)

lemma put_copy_ok:
  assumes "put_copy_and_output d e cfg s w r chunks i file expires ttl format = (Inr (), s', w')"
  shows "\<exists>sl. io_Copy e 0 (newLimiter (FileSizeLimit cfg)) (sizeLimiter s) (files s) file chunks
            = (None, sl, files s')"
  using assms
  by (auto simp: put_copy_and_output_def split: prod.splits option.splits if_splits sum.splits)

lemma isExpired_meta:
  assumes "readMetaFile d fs metafile = Some m"
    and "\<not> (0 < Expires m \<and> Expires m * second < now e)"
    and "Expires m \<le> maxInt64 - unixToInternal"
  shows "\<not> isExpired d e cfg fs info metafile"
  using assms by (auto simp: isExpired_def Since_Unix_plain sat64_pos)

lemma expires_at_bound:
  assumes "now e \<le> maxInt64" and "ttl \<le> maxInt64"
  shows "expires_at e ttl \<le> maxInt64 - unixToInternal"
proof (cases "0 < ttl")
  case True
  have "now e + ttl \<le> 2 * maxInt64" using assms by simp
  then have "(now e + ttl) div second \<le> (2 * maxInt64) div second"
    by (simp add: second_def zdiv_mono1)
  also have "\<dots> \<le> maxInt64 - unixToInternal"
    by (simp add: maxInt64_def second_def unixToInternal_def)
  finally show ?thesis using True by (simp add: expires_at_def)
next
  case False
  then show ?thesis by (simp add: expires_at_def maxInt64_def unixToInternal_def)
qed

lemma readMetaFile_cong:
  "map_of fs' metafile = map_of fs metafile \<Longrightarrow> readMetaFile d fs' metafile = readMetaFile d fs metafile"
  by (simp add: readMetaFile_def)

text \<open>The sweep leaves alone an entry whose metadata says it has not expired.\<close>

lemma sweep_keeps:
  assumes "CHR '':'' \<notin> set i"
    and "readMetaFile d fs (i @ '':meta'') = Some m"
    and "\<not> (0 < Expires m \<and> Expires m * second < now e)"
    and "Expires m \<le> maxInt64 - unixToInternal"
  shows "map_of (fst (sweep d e cfg l fs a b)) i = map_of fs i \<and>
         map_of (fst (sweep d e cfg l fs a b)) (i @ '':meta'') = map_of fs (i @ '':meta'')"
  using assms(2)
proof (induction l arbitrary: fs a b)
  case Nil
  then show ?case by simp
next
  case (Cons x l)
  obtain n info where x: "x = (n, info)" by (cases x)
  show ?case
  proof (cases "HasSuffix n '':meta''")
    case True
    with Cons x show ?thesis by simp
  next
    case False
    obtain fs' fl where me: "maybeExpire d e cfg fs n info = (fs', fl)"
      by (cases "maybeExpire d e cfg fs n info")
    have keep: "map_of fs' i = map_of fs i \<and> map_of fs' (i @ '':meta'') = map_of fs (i @ '':meta'')"
    proof (cases "n = i")
      case True
      have "\<not> isExpired d e cfg fs info (i @ '':meta'')"
        using Cons.prems assms(3,4) by (rule isExpired_meta)
      with True me show ?thesis by (simp add: maybeExpire_not_expired)
    next
      case ni: False
      have a: "i \<noteq> n" using ni by simp
      have b: "i \<noteq> n @ '':meta''" using assms(1) by auto
      have c: "i @ '':meta'' \<noteq> n" using False by (auto simp: HasSuffix_iff)
      have d: "i @ '':meta'' \<noteq> n @ '':meta''" using ni by simp
      from maybeExpire_other [OF a b, of d e cfg fs info]
        maybeExpire_other [OF c d, of d e cfg fs info] me
      show ?thesis by simp
    qed
    then have rm: "readMetaFile d fs' (i @ '':meta'') = Some m"
      using Cons.prems by (simp add: readMetaFile_def)
    have step: "fst (sweep d e cfg (x # l) fs a b) =
        fst (sweep d e cfg l fs' (if fl then a else a + 1) (if fl then b else b + file_Size info))"
      using x False me by (cases fl) simp_all
    from Cons.IH [OF rm] keep step show ?thesis by simp
  qed
qed

lemma updateStatsAndExpire_keeps:
  assumes "CHR '':'' \<notin> set i"
    and "readMetaFile d (files s) (i @ '':meta'') = Some m"
    and "\<not> (0 < Expires m \<and> Expires m * second < now e)"
    and "Expires m \<le> maxInt64 - unixToInternal"
  shows "map_of (files (updateStatsAndExpire d e cfg s)) i = map_of (files s) i"
proof (cases "readdir_fails e")
  case True
  then show ?thesis by (simp add: updateStatsAndExpire_def)
next
  case False
  obtain fs' n t where sw: "sweep d e cfg (files s) (files s) 0 0 = (fs', n, t)"
    by (rule prod_cases3)
  from sweep_keeps [OF assms, of cfg "files s" 0 0] sw have "map_of fs' i = map_of (files s) i"
    by simp
  with False sw show ?thesis by (simp add: updateStatsAndExpire_def)
qed

text \<open>The directory after the body of a successful write, before the deferred sweep.\<close>

lemma put_body_stored:
  assumes ok: "fst (fst (put_body d e cfg s w r i)) = Inr ()"
    and body: "Body r = Some chunks"
    and colon: "CHR '':'' \<notin> set i"
    and rm: "\<not> remove_fails e i" "\<not> remove_fails e (i @ '':meta'')"
    and mode: "getFileMode cfg r = Inr mode" and ttl: "getTTL d cfg r = Inr ttl"
  shows "\<exists>f g. map_of (files (fst (snd (fst (put_body d e cfg s w r i))))) i = Some f \<and>
           fdata f = concat chunks \<and>
           (kind f = NamedPipe \<longleftrightarrow> isStream r) \<and>
           map_of (files (fst (snd (fst (put_body d e cfg s w r i))))) (i @ '':meta'') = Some g \<and>
           fdata g = encode_meta d \<lparr>Mode = mode, Expires = expires_at e ttl\<rparr>"
proof -
  have ne: "i \<noteq> i @ '':meta''" by simp
  have ne': "i @ '':meta'' \<noteq> i" by simp
  from put_body_deferred [OF put_body_ok_deferred [OF ok]] body mode ttl
  obtain s1 fs3 s4 w4 where
    adm: "put_admit d e s r i (i @ '':meta'') = (None, s1)"
    and wm: "write_metafile d e (fst (os_Remove e (fst (os_Remove e (files s1) i)) (i @ '':meta'')))
        (i @ '':meta'') \<lparr>Mode = mode, Expires = expires_at e ttl\<rparr> = (None, fs3)"
    and st: "put_stream_setup d e (s1\<lparr>files := fs3\<rparr>) w r i i (expires_at e ttl) ttl (outputFormat r)
        = (None, s4, w4)"
    and out: "fst (put_body d e cfg s w r i) =
       put_copy_and_output d e cfg (s4\<lparr>files := os_OpenFile_trunc e (files s4) i\<rparr>) w4 r chunks
         i i (expires_at e ttl) ttl (outputFormat r)"
    by auto
  let ?fs2 = "fst (os_Remove e (fst (os_Remove e (files s1) i)) (i @ '':meta''))"
  have i2: "map_of ?fs2 i = None"
    using rm(1) by (simp add: os_Remove_map_of)
  have m2: "map_of ?fs2 (i @ '':meta'') = None"
    using rm(2) by (simp add: os_Remove_gone)
  have i3: "map_of fs3 i = None"
    using write_metafile_other [OF ne, of d e ?fs2 "\<lparr>Mode = mode, Expires = expires_at e ttl\<rparr>"] wm i2
    by simp
  from write_metafile_ok [OF wm m2] obtain g where
    g: "map_of fs3 (i @ '':meta'') = Some g"
    and gd: "fdata g = encode_meta d \<lparr>Mode = mode, Expires = expires_at e ttl\<rparr>"
    by blast
  let ?fsA = "os_OpenFile_trunc e (files s4) i"
  have iA: "\<exists>f0. map_of ?fsA i = Some f0 \<and> fdata f0 = [] \<and> (kind f0 = NamedPipe \<longleftrightarrow> isStream r)"
    using put_stream_setup_ok [OF st] i3
    by (auto simp: os_OpenFile_trunc_map_of map_of_update split: if_splits)
  have mA: "map_of ?fsA (i @ '':meta'') = Some g"
    using put_stream_setup_ok [OF st] g
    by (auto simp: os_OpenFile_trunc_map_of map_of_update split: if_splits)
  obtain res s5 w5 where pc: "put_copy_and_output d e cfg (s4\<lparr>files := ?fsA\<rparr>) w4 r chunks
         i i (expires_at e ttl) ttl (outputFormat r) = (res, s5, w5)"
    by (rule prod_cases3)
  from ok out pc have res: "res = Inr ()" by simp
  from put_copy_ok [OF pc [unfolded res]] obtain sl where
    io: "io_Copy e 0 (newLimiter (FileSizeLimit cfg)) (sizeLimiter s4) ?fsA i chunks = (None, sl, files s5)"
    by auto
  from iA obtain f0 where f0: "map_of ?fsA i = Some f0" "fdata f0 = []"
    "kind f0 = NamedPipe \<longleftrightarrow> isStream r" by blast
  from io_Copy_data [OF io f0(1)] f0 obtain f where
    f: "map_of (files s5) i = Some f" "fdata f = concat chunks" "kind f = NamedPipe \<longleftrightarrow> isStream r"
    by auto
  from io_Copy_other [OF ne', of e 0 "newLimiter (FileSizeLimit cfg)" "sizeLimiter s4" ?fsA chunks] io mA
  have m5: "map_of (files s5) (i @ '':meta'') = Some g" by simp
  from out pc have "fst (snd (fst (put_body d e cfg s w r i))) = s5" by simp
  with f m5 gd show ?thesis by auto
qed

section \<open>Counting the content files\<close>

lemma content_files_delete_meta:
  "HasSuffix k '':meta'' \<Longrightarrow> content_files (AList.delete k fs) = content_files fs"
  by (induction fs) (auto simp: content_files_def AList.delete_eq)

lemma content_files_delete_le:
  "length (content_files (AList.delete k fs)) \<le> length (content_files fs)"
  by (induction fs) (auto simp: content_files_def AList.delete_eq)

lemma content_files_delete_present:
  assumes "\<not> HasSuffix k '':meta''" and "map_of fs k \<noteq> None"
  shows "length (content_files (AList.delete k fs)) < length (content_files fs)"
  using assms(2)
proof (induction fs)
  case Nil
  then show ?case by simp
next
  case (Cons p fs)
  obtain n f where p: "p = (n, f)" by (cases p)
  show ?case
  proof (cases "n = k")
    case True
    have "length (content_files (AList.delete k fs)) \<le> length (content_files fs)"
      by (rule content_files_delete_le)
    with True p assms(1) show ?thesis by (simp add: content_files_def AList.delete_eq)
  next
    case False
    with Cons p show ?thesis by (auto simp: content_files_def AList.delete_eq)
  qed
qed

lemma content_files_update:
  "length (content_files (AList.update k v fs)) =
     (if map_of fs k = None \<and> \<not> HasSuffix k '':meta''
      then length (content_files fs) + 1 else length (content_files fs))"
  by (induction fs) (auto simp: content_files_def)

text \<open>No step of a write raises \<open>content_count_with i\<close>.\<close>

lemma ccw_Remove:
  assumes "\<not> HasSuffix i '':meta''"
  shows "content_count_with i (fst (os_Remove e fs n)) \<le> content_count_with i fs"
proof (cases "map_of fs n = None \<or> remove_fails e n")
  case True
  then show ?thesis by (auto simp: os_Remove_def)
next
  case False
  then have r: "fst (os_Remove e fs n) = AList.delete n fs" by (auto simp: os_Remove_def)
  show ?thesis
  proof (cases "n = i")
    case True
    from False True have "map_of fs i \<noteq> None" by simp
    from content_files_delete_present [OF assms this] True r show ?thesis
      by (simp add: content_count_with_def map_of_delete)
  next
    case ni: False
    from content_files_delete_le [of n fs] r ni show ?thesis
      by (simp add: content_count_with_def map_of_delete)
  qed
qed

lemma ccw_update:
  assumes "n = i \<or> HasSuffix n '':meta''" and "\<not> HasSuffix i '':meta''"
  shows "content_count_with i (AList.update n v fs) = content_count_with i fs"
  using assms by (auto simp: content_count_with_def content_files_update map_of_update)

lemma ccw_update_present:
  assumes "map_of fs n \<noteq> None"
  shows "content_count_with i (AList.update n v fs) = content_count_with i fs"
  using assms by (auto simp: content_count_with_def content_files_update map_of_update)

lemma ccw_file_append: "content_count_with i (file_append e fs n p) = content_count_with i fs"
proof (cases "map_of fs n")
  case None
  then show ?thesis by (simp add: file_append_def)
next
  case (Some f)
  then have "map_of fs n \<noteq> None" by simp
  from ccw_update_present [OF this] Some show ?thesis by (simp add: file_append_def)
qed

lemma ccw_OpenFile:
  assumes "n = i \<or> HasSuffix n '':meta''" and "\<not> HasSuffix i '':meta''"
  shows "content_count_with i (os_OpenFile_trunc e fs n) = content_count_with i fs"
proof (cases "map_of fs n")
  case None
  with ccw_update [OF assms] show ?thesis by (simp add: os_OpenFile_trunc_def)
next
  case (Some f)
  then have "map_of fs n \<noteq> None" by simp
  from ccw_update_present [OF this] Some show ?thesis
    by (simp add: os_OpenFile_trunc_def)
qed

lemma ccw_write_metafile:
  assumes "HasSuffix m '':meta''" and "\<not> HasSuffix i '':meta''"
  shows "content_count_with i (snd (write_metafile d e fs m x)) = content_count_with i fs"
proof -
  have a: "m = i \<or> HasSuffix m '':meta''" using assms(1) by simp
  show ?thesis
    by (simp add: write_metafile_def Let_def ccw_file_append ccw_OpenFile [OF a assms(2)])
qed

lemma ccw_io_Copy:
  "content_count_with i (snd (snd (io_Copy e j fl sl fs n chunks))) = content_count_with i fs"
proof (induction chunks arbitrary: j fl sl fs)
  case Nil
  then show ?case by simp
next
  case (Cons p ps)
  show ?case
  proof (cases "copy_fault e = Some (ReadFault j) \<or> p = []")
    case True
    with Cons show ?thesis by auto
  next
    case False
    show ?thesis
    proof (cases "fst (limitWriter_Write e j fl sl fs n p)")
      case None
      then obtain fl' sl' where lw: "limitWriter_Write e j fl sl fs n p = (None, fl', sl', file_append e fs n p)"
        by (auto simp: limitWriter_Write_def split: option.splits)
      with False Cons.IH [of "Suc j" fl' sl' "file_append e fs n p"] show ?thesis
        by (simp add: ccw_file_append)
    next
      case (Some err)
      then obtain fl' sl' where lw: "limitWriter_Write e j fl sl fs n p = (Some err, fl', sl', fs)"
        by (auto simp: limitWriter_Write_def split: option.splits)
      with False show ?thesis by simp
    qed
  qed
qed

lemma ccw_le_content: "int (length (content_files fs)) \<le> content_count_with i fs"
  by (simp add: content_count_with_def)

lemma ccw_present: "map_of fs i \<noteq> None \<Longrightarrow> content_count_with i fs = int (length (content_files fs))"
  by (simp add: content_count_with_def)

lemma ccw_absent: "map_of fs i = None \<Longrightarrow> content_count_with i fs = int (length (content_files fs)) + 1"
  by (simp add: content_count_with_def)

lemma put_admit_count:
  assumes "put_admit d e s r f m = (x, s1)"
  shows "files s1 = files s \<and> llimit (countLimiter s1) = llimit (countLimiter s) \<and>
         (map_of (files s) f \<noteq> None \<longrightarrow> countLimiter s1 = countLimiter s)"
  using assms
  by (auto simp: put_admit_def getVisitor_def Let_def limiter_Add_def
      split: option.splits prod.splits if_splits)

lemma put_admit_absent:
  assumes "map_of (files s) f = None"
  shows "put_admit d e s r f m =
     (case limiter_Add (countLimiter s) 1 of
        None \<Rightarrow> (Some ErrHTTPTooManyRequests, s)
      | Some l \<Rightarrow> (None, s\<lparr>countLimiter := l\<rparr>))"
  using assms by (simp add: put_admit_def)

lemma put_stream_setup_count:
  assumes "put_stream_setup d e s w r i' i expires ttl format = (z, s4, w4)"
    and "\<not> HasSuffix i '':meta''"
  shows "content_count_with i (files s4) \<le> content_count_with i (files s) \<and>
         llimit (countLimiter s4) = llimit (countLimiter s) \<and>
         lvalue (countLimiter s4) \<le> lvalue (countLimiter s) \<and>
         (z = None \<longrightarrow> countLimiter s4 = countLimiter s \<and>
                     content_count_with i (files s4) = content_count_with i (files s))"
proof (cases "isStream r")
  case False
  with assms(1) show ?thesis by (simp add: put_stream_setup_def)
next
  case True
  show ?thesis
  proof (cases "os_Mkfifo e (files s) i")
    case None
    with True assms(1) show ?thesis by (auto simp: put_stream_setup_def limiter_Sub_def)
  next
    case (Some fs1)
    then have fs1: "fs1 = AList.update i \<lparr>kind = NamedPipe, fdata = [], fmtime = now e\<rparr> (files s)"
      by (auto simp: os_Mkfifo_def split: if_splits)
    have c: "content_count_with i fs1 = content_count_with i (files s)"
      unfolding fs1 using assms(2) by (simp add: ccw_update)
    from True Some assms(1) c show ?thesis
      by (auto simp: put_stream_setup_def limiter_Sub_def split: prod.splits sum.splits)
  qed
qed

lemma put_copy_and_output_count:
  assumes "put_copy_and_output d e cfg s w r chunks i' i expires ttl format = (res, s', w')"
    and "\<not> HasSuffix i '':meta''"
  shows "content_count_with i (files s') \<le> content_count_with i (files s) \<and>
         countLimiter s' = countLimiter s"
proof -
  obtain err sl fs where io: "io_Copy e 0 (newLimiter (FileSizeLimit cfg)) (sizeLimiter s) (files s) i chunks
      = (err, sl, fs)"
    by (rule prod_cases3)
  have c: "content_count_with i fs = content_count_with i (files s)"
    using ccw_io_Copy [of i e 0 "newLimiter (FileSizeLimit cfg)" "sizeLimiter s" "files s" i chunks] io
    by simp
  have rm: "content_count_with i (fst (os_Remove e fs i)) \<le> content_count_with i (files s)"
    using ccw_Remove [OF assms(2), of e fs i] c by simp
  from assms(1) io c rm show ?thesis
    by (auto simp: put_copy_and_output_def split: option.splits if_splits prod.splits sum.splits)
qed

text \<open>Whatever way a write ends, before its deferred sweep: the content files have not
  become more than they are with the entry in place, the cap of the global count limiter
  is as it was, and an overwrite has not raised the global count.\<close>

lemma put_body_count:
  assumes nm: "\<not> HasSuffix i '':meta''"
  shows "content_count_with i (files (fst (snd (fst (put_body d e cfg s w r i)))))
           \<le> content_count_with i (files s) \<and>
         llimit (countLimiter (fst (snd (fst (put_body d e cfg s w r i))))) = llimit (countLimiter s) \<and>
         (map_of (files s) i \<noteq> None \<longrightarrow>
            lvalue (countLimiter (fst (snd (fst (put_body d e cfg s w r i))))) \<le> lvalue (countLimiter s))"
proof -
  define I where "I = (\<lambda>S::server. content_count_with i (files S) \<le> content_count_with i (files s) \<and>
         llimit (countLimiter S) = llimit (countLimiter s) \<and>
         (map_of (files s) i \<noteq> None \<longrightarrow> lvalue (countLimiter S) \<le> lvalue (countLimiter s)))"
  have I0: "I s" by (simp add: I_def)
  obtain x s1 where adm: "put_admit d e s r i (i @ '':meta'') = (x, s1)"
    by (cases "put_admit d e s r i (i @ '':meta'')")
  have I1: "I s1" using put_admit_count [OF adm] by (simp add: I_def)
  define fs2 where "fs2 = fst (os_Remove e (fst (os_Remove e (files s1) i)) (i @ '':meta''))"
  have c2: "content_count_with i fs2 \<le> content_count_with i (files s)"
  proof -
    have "content_count_with i fs2 \<le> content_count_with i (fst (os_Remove e (files s1) i))"
      unfolding fs2_def by (rule ccw_Remove [OF nm])
    also have "\<dots> \<le> content_count_with i (files s1)" by (rule ccw_Remove [OF nm])
    finally show ?thesis using put_admit_count [OF adm] by simp
  qed
  have I2: "I (s1\<lparr>files := fs2\<rparr>)" using I1 c2 by (simp add: I_def)
  have I3: "\<And>m. I (s1\<lparr>files := snd (write_metafile d e fs2 (i @ '':meta'') m)\<rparr>)"
    using I1 c2 nm by (simp add: I_def ccw_write_metafile HasSuffix_append)
  have I4: "\<And>m ex t fmt z s4 w4.
      put_stream_setup d e (s1\<lparr>files := snd (write_metafile d e fs2 (i @ '':meta'') m)\<rparr>) w r i i ex t fmt
        = (z, s4, w4) \<Longrightarrow> I s4 \<and> I (s4\<lparr>countLimiter := limiter_Sub (countLimiter s4) 1\<rparr>)"
  proof -
    fix m ex t fmt z s4 w4
    assume st: "put_stream_setup d e (s1\<lparr>files := snd (write_metafile d e fs2 (i @ '':meta'') m)\<rparr>)
        w r i i ex t fmt = (z, s4, w4)"
    from put_stream_setup_count [OF st nm] I3 [of m]
    show "I s4 \<and> I (s4\<lparr>countLimiter := limiter_Sub (countLimiter s4) 1\<rparr>)"
      by (auto simp: I_def limiter_Sub_def)
  qed
  have I5: "\<And>m ex t fmt z s4 w4 ch.
      put_stream_setup d e (s1\<lparr>files := snd (write_metafile d e fs2 (i @ '':meta'') m)\<rparr>) w r i i ex t fmt
        = (z, s4, w4) \<Longrightarrow>
      I (fst (snd (put_copy_and_output d e cfg (s4\<lparr>files := os_OpenFile_trunc e (files s4) i\<rparr>)
                     w4 r ch i i ex t fmt)))"
  proof -
    fix m ex t fmt z s4 w4 ch
    assume st: "put_stream_setup d e (s1\<lparr>files := snd (write_metafile d e fs2 (i @ '':meta'') m)\<rparr>)
        w r i i ex t fmt = (z, s4, w4)"
    obtain res s5 w5 where pc: "put_copy_and_output d e cfg
        (s4\<lparr>files := os_OpenFile_trunc e (files s4) i\<rparr>) w4 r ch i i ex t fmt = (res, s5, w5)"
      by (rule prod_cases3)
    have o: "content_count_with i (os_OpenFile_trunc e (files s4) i) = content_count_with i (files s4)"
      using nm by (simp add: ccw_OpenFile)
    from put_copy_and_output_count [OF pc nm] o I4 [OF st] pc
    show "I (fst (snd (put_copy_and_output d e cfg (s4\<lparr>files := os_OpenFile_trunc e (files s4) i\<rparr>)
                     w4 r ch i i ex t fmt)))"
      by (simp add: I_def)
  qed
  have "I (fst (snd (fst (put_body d e cfg s w r i))))"
  proof (cases "getClipboardFile i")
    case None
    with I0 show ?thesis by (simp add: put_body_def)
  next
    case gf: (Some p)
    then have p: "p = (i, i @ '':meta'')" by (auto simp: getClipboardFile_def split: if_splits)
    show ?thesis
    proof (cases "Body r")
      case None
      with I0 gf p show ?thesis by (simp add: put_body_def)
    next
      case b: (Some chunks)
      show ?thesis
      proof (cases x)
        case (Some err)
        with I1 gf p b adm show ?thesis by (simp add: put_body_def)
      next
        case xn: None
        show ?thesis
        proof (cases "getFileMode cfg r")
          case (Inl err)
          with I2 gf p b adm xn show ?thesis by (simp add: put_body_def fs2_def)
        next
          case m: (Inr mode)
          show ?thesis
          proof (cases "getTTL d cfg r")
            case (Inl err)
            with I2 gf p b adm xn m show ?thesis by (simp add: put_body_def fs2_def)
          next
            case t: (Inr ttl)
            let ?m = "\<lparr>Mode = mode, Expires = expires_at e ttl\<rparr>"
            obtain y fs3 where wm: "write_metafile d e fs2 (i @ '':meta'') ?m = (y, fs3)"
              by (cases "write_metafile d e fs2 (i @ '':meta'') ?m")
            then have fs3: "fs3 = snd (write_metafile d e fs2 (i @ '':meta'') ?m)" by simp
            show ?thesis
            proof (cases y)
              case (Some err)
              with I3 [of ?m] gf p b adm xn m t wm show ?thesis
                by (simp add: put_body_def fs2_def [symmetric] Let_def)
            next
              case yn: None
              obtain z s4 w4 where st: "put_stream_setup d e (s1\<lparr>files := fs3\<rparr>) w r i i
                  (expires_at e ttl) ttl (outputFormat r) = (z, s4, w4)"
                by (rule prod_cases3)
              note st' = st [unfolded fs3]
              show ?thesis
              proof (cases z)
                case (Some err)
                with I4 [OF st'] gf p b adm xn m t wm yn st show ?thesis
                  by (simp add: put_body_def fs2_def [symmetric] Let_def)
              next
                case zn: None
                show ?thesis
                proof (cases "file_open_fails e")
                  case True
                  with I4 [OF st'] gf p b adm xn m t wm yn st zn show ?thesis
                    by (simp add: put_body_def fs2_def [symmetric] Let_def)
                next
                  case False
                  with I5 [OF st', of chunks] gf p b adm xn m t wm yn st zn show ?thesis
                    by (simp add: put_body_def fs2_def [symmetric] Let_def)
                qed
              qed
            qed
          qed
        qed
      qed
    qed
  qed
  then show ?thesis by (simp add: I_def)
qed

section \<open>Counting in the sweep\<close>

lemma sweep_count_le:
  "fst (snd (sweep d e cfg l fs a b)) \<le> a + int (length (content_files l))"
proof (induction l arbitrary: fs a b)
  case Nil
  then show ?case by (simp add: content_files_def)
next
  case (Cons x l)
  obtain n info where x: "x = (n, info)" by (cases x)
  show ?case
  proof (cases "HasSuffix n '':meta''")
    case True
    with Cons [of fs a b] x show ?thesis by (simp add: content_files_def)
  next
    case False
    obtain fs' fl where me: "maybeExpire d e cfg fs n info = (fs', fl)"
      by (cases "maybeExpire d e cfg fs n info")
    show ?thesis
    proof (cases fl)
      case True
      with Cons [of fs' a b] x False me show ?thesis by (simp add: content_files_def)
    next
      case f: False
      with Cons [of fs' "a + 1" "b + file_Size info"] x False me show ?thesis
        by (simp add: content_files_def)
    qed
  qed
qed

lemma sweep_nothing_expired:
  assumes "list_all (\<lambda>(n, info). \<not> isExpired d e cfg fs info (n @ '':meta'')) (content_files l)"
  shows "fst (sweep d e cfg l fs a b) = fs \<and>
         fst (snd (sweep d e cfg l fs a b)) = a + int (length (content_files l))"
  using assms
proof (induction l arbitrary: a b)
  case Nil
  then show ?case by (simp add: content_files_def)
next
  case (Cons x l)
  obtain n info where x: "x = (n, info)" by (cases x)
  show ?case
  proof (cases "HasSuffix n '':meta''")
    case True
    with Cons.prems x have "list_all (\<lambda>(n, info). \<not> isExpired d e cfg fs info (n @ '':meta''))
        (content_files l)"
      by (simp add: content_files_def)
    from Cons.IH [OF this, of a b] True x show ?thesis by (simp add: content_files_def)
  next
    case False
    with Cons.prems x have ne: "\<not> isExpired d e cfg fs info (n @ '':meta'')"
      and rest: "list_all (\<lambda>(n, info). \<not> isExpired d e cfg fs info (n @ '':meta'')) (content_files l)"
      by (simp_all add: content_files_def)
    from Cons.IH [OF rest, of "a + 1" "b + file_Size info"] False x ne show ?thesis
      by (simp add: content_files_def maybeExpire_not_expired)
  qed
qed

lemma updateStatsAndExpire_limit:
  "llimit (countLimiter (updateStatsAndExpire d e cfg s)) = llimit (countLimiter s)"
  by (simp add: updateStatsAndExpire_def Let_def limiter_Set_def split: prod.splits)

lemma updateStatsAndExpire_count_le:
  "lvalue (countLimiter (updateStatsAndExpire d e cfg s))
     \<le> max (lvalue (countLimiter s)) (int (length (content_files (files s))))"
proof (cases "readdir_fails e")
  case True
  then show ?thesis by (simp add: updateStatsAndExpire_def)
next
  case False
  obtain fs' n t where sw: "sweep d e cfg (files s) (files s) 0 0 = (fs', n, t)"
    by (rule prod_cases3)
  from sweep_count_le [of d e cfg "files s" "files s" 0 0] sw
  have "n \<le> int (length (content_files (files s)))" by simp
  with False sw show ?thesis by (simp add: updateStatsAndExpire_def limiter_Set_def)
qed

lemma updateStatsAndExpire_nothing_expired:
  assumes "nothing_expired d e cfg (files s)"
  shows "files (updateStatsAndExpire d e cfg s) = files s \<and>
         lvalue (countLimiter (updateStatsAndExpire d e cfg s)) =
           (if readdir_fails e then lvalue (countLimiter s)
            else int (length (content_files (files s))))"
proof (cases "readdir_fails e")
  case True
  then show ?thesis by (simp add: updateStatsAndExpire_def)
next
  case False
  obtain fs' n t where sw: "sweep d e cfg (files s) (files s) 0 0 = (fs', n, t)"
    by (rule prod_cases3)
  from sweep_nothing_expired [OF assms [unfolded nothing_expired_def], of 0 0] sw
  have "fs' = files s" and "n = int (length (content_files (files s)))" by simp_all
  with False sw show ?thesis by (simp add: updateStatsAndExpire_def limiter_Set_def)
qed

section \<open>A successful write of a new entry\<close>

lemma valid_id_not_meta: "valid_id i \<Longrightarrow> \<not> HasSuffix i '':meta''"
  using valid_id_no_colon [of i] HasSuffix_meta_colon [of i] by blast

lemma ccw_Remove_eq:
  assumes "map_of fs n = None \<or> (HasSuffix n '':meta'' \<and> n \<noteq> i)"
  shows "content_count_with i (fst (os_Remove e fs n)) = content_count_with i fs"
proof (cases "map_of fs n = None \<or> remove_fails e n")
  case True
  then show ?thesis by (auto simp: os_Remove_def)
next
  case False
  with assms have m: "HasSuffix n '':meta''" and ni: "n \<noteq> i" by auto
  from False have "fst (os_Remove e fs n) = AList.delete n fs" by (auto simp: os_Remove_def)
  with m ni show ?thesis
    by (simp add: content_count_with_def content_files_delete_meta map_of_delete)
qed

lemma put_body_new_entry:
  assumes ok: "fst (fst (put_body d e cfg s w r i)) = Inr ()"
    and absent: "map_of (files s) i = None"
    and nm: "\<not> HasSuffix i '':meta''"
  shows "lvalue (countLimiter (fst (snd (fst (put_body d e cfg s w r i))))) = lvalue (countLimiter s) + 1 \<and>
         int (length (content_files (files (fst (snd (fst (put_body d e cfg s w r i)))))))
           = int (length (content_files (files s))) + 1"
proof -
  have mi: "i @ '':meta'' \<noteq> i" by simp
  from put_body_deferred [OF put_body_ok_deferred [OF ok]]
  obtain chunks s1 mode ttl fs3 s4 w4 where
    adm: "put_admit d e s r i (i @ '':meta'') = (None, s1)"
    and wm: "write_metafile d e (fst (os_Remove e (fst (os_Remove e (files s1) i)) (i @ '':meta'')))
        (i @ '':meta'') \<lparr>Mode = mode, Expires = expires_at e ttl\<rparr> = (None, fs3)"
    and st: "put_stream_setup d e (s1\<lparr>files := fs3\<rparr>) w r i i (expires_at e ttl) ttl (outputFormat r)
        = (None, s4, w4)"
    and out: "fst (put_body d e cfg s w r i) =
       put_copy_and_output d e cfg (s4\<lparr>files := os_OpenFile_trunc e (files s4) i\<rparr>) w4 r chunks
         i i (expires_at e ttl) ttl (outputFormat r)"
    by auto
  from adm absent obtain l where l: "limiter_Add (countLimiter s) 1 = Some l"
    and s1: "s1 = s\<lparr>countLimiter := l\<rparr>"
    by (auto simp: put_admit_absent split: option.splits)
  have lv: "lvalue l = lvalue (countLimiter s) + 1" using limiter_Add_Some [OF l] by simp
  let ?fs1 = "fst (os_Remove e (files s1) i)"
  let ?fs2 = "fst (os_Remove e ?fs1 (i @ '':meta''))"
  have c1: "content_count_with i ?fs1 = content_count_with i (files s)"
    using absent s1 by (simp add: ccw_Remove_eq)
  have c2: "content_count_with i ?fs2 = content_count_with i ?fs1"
    using mi by (intro ccw_Remove_eq) (simp add: HasSuffix_append)
  have c3: "content_count_with i fs3 = content_count_with i ?fs2"
    using ccw_write_metafile [OF HasSuffix_append nm, of d e ?fs2 i "\<lparr>Mode = mode, Expires = expires_at e ttl\<rparr>"]
      wm by simp
  from put_stream_setup_count [OF st nm]
  have c4: "content_count_with i (files s4) = content_count_with i fs3"
    and k4: "countLimiter s4 = countLimiter s1" by simp_all
  let ?fsA = "os_OpenFile_trunc e (files s4) i"
  have cA: "content_count_with i ?fsA = content_count_with i (files s4)"
    using nm by (simp add: ccw_OpenFile)
  have pA: "map_of ?fsA i \<noteq> None"
    by (simp add: os_OpenFile_trunc_map_of split: option.splits)
  obtain res s5 w5 where pc: "put_copy_and_output d e cfg (s4\<lparr>files := ?fsA\<rparr>) w4 r chunks
         i i (expires_at e ttl) ttl (outputFormat r) = (res, s5, w5)"
    by (rule prod_cases3)
  from ok out pc have res: "res = Inr ()" by simp
  from put_copy_ok [OF pc [unfolded res]] obtain sl where
    io: "io_Copy e 0 (newLimiter (FileSizeLimit cfg)) (sizeLimiter s4) ?fsA i chunks = (None, sl, files s5)"
    by auto
  have c5: "content_count_with i (files s5) = content_count_with i ?fsA"
    using ccw_io_Copy [of i e 0 "newLimiter (FileSizeLimit cfg)" "sizeLimiter s4" ?fsA i chunks] io
    by simp
  have p5: "map_of (files s5) i \<noteq> None"
    using io_Copy_present [OF pA, of e 0 "newLimiter (FileSizeLimit cfg)" "sizeLimiter s4" chunks] io
    by simp
  have k5: "countLimiter s5 = countLimiter s4"
    using put_copy_and_output_count [OF pc nm] by simp
  have S: "fst (snd (fst (put_body d e cfg s w r i))) = s5" using out pc by simp
  have "int (length (content_files (files s5))) = content_count_with i (files s5)"
    using p5 by (simp add: ccw_present)
  also have "\<dots> = content_count_with i (files s)"
    using c5 cA c4 c3 c2 c1 by simp
  also have "\<dots> = int (length (content_files (files s))) + 1"
    using absent by (simp add: ccw_absent)
  finally show ?thesis using S k5 k4 s1 lv by simp
qed

lemma handleClipboardPut_limit:
  assumes "\<not> HasSuffix i '':meta''"
  shows "llimit (countLimiter (fst (snd (handleClipboardPut d e cfg s w r i)))) = llimit (countLimiter s)"
  using put_body_count [OF assms, of d e cfg s w r]
  by (cases "put_body d e cfg s w r i")
     (auto simp: handleClipboardPut_def updateStatsAndExpire_limit)

lemma new_entry_step:
  assumes "valid_id i" and "map_of (files s) i = None"
    and "fst (handleClipboardPut d e cfg s w r i) = Inr ()"
    and "nothing_expired d e cfg (files (fst (snd (fst (put_body d e cfg s w r i)))))"
  shows "min (lvalue (countLimiter s)) (int (length (content_files (files s)))) + 1
           \<le> min (lvalue (countLimiter (fst (snd (handleClipboardPut d e cfg s w r i)))))
                 (int (length (content_files (files (fst (snd (handleClipboardPut d e cfg s w r i)))))))"
proof -
  have nm: "\<not> HasSuffix i '':meta''" using assms(1) by (rule valid_id_not_meta)
  have ok: "fst (fst (put_body d e cfg s w r i)) = Inr ()"
    using assms(3) by (simp add: handleClipboardPut_fst)
  let ?S = "fst (snd (fst (put_body d e cfg s w r i)))"
  from put_body_new_entry [OF ok assms(2) nm]
  have a: "lvalue (countLimiter ?S) = lvalue (countLimiter s) + 1"
    and b: "int (length (content_files (files ?S))) = int (length (content_files (files s))) + 1"
    by simp_all
  have h: "fst (snd (handleClipboardPut d e cfg s w r i)) = updateStatsAndExpire d e cfg ?S"
    using handleClipboardPut_deferred [OF put_body_ok_deferred [OF ok]] by simp
  from updateStatsAndExpire_nothing_expired [OF assms(4)] a b show ?thesis
    unfolding h by (auto split: if_splits)
qed

lemma new_entry_writes_count:
  assumes "new_entry_writes d cfg s ws = Some s'"
  shows "min (lvalue (countLimiter s)) (int (length (content_files (files s)))) + int (length ws)
           \<le> min (lvalue (countLimiter s')) (int (length (content_files (files s')))) \<and>
         llimit (countLimiter s') = llimit (countLimiter s)"
  using assms
proof (induction ws arbitrary: s)
  case Nil
  then show ?case by simp
next
  case (Cons x ws)
  obtain e r i where x: "x = (e, r, i)" by (cases x)
  let ?s1 = "fst (snd (handleClipboardPut d e cfg s blank r i))"
  from Cons.prems x have v: "valid_id i" and ab: "map_of (files s) i = None"
    and ok: "fst (handleClipboardPut d e cfg s blank r i) = Inr ()"
    and ne: "nothing_expired d e cfg (files (fst (snd (fst (put_body d e cfg s blank r i)))))"
    and rest: "new_entry_writes d cfg ?s1 ws = Some s'"
    by (simp_all split: if_splits)
  from new_entry_step [OF v ab ok ne] Cons.IH [OF rest]
    handleClipboardPut_limit [OF valid_id_not_meta [OF v], of d e cfg s blank r]
  show ?case by (simp del: min_less_iff_conj min.bounded_iff)
qed

section \<open>The existence check and the global count\<close>

lemma put_new_entry_refused:
  assumes "i \<notin> set reservedFiles" and "Body r \<noteq> None" and "map_of (files s) i = None"
    and "limiter_Add (countLimiter s) 1 = None"
  shows "handleClipboardPut d e cfg s w r i = (Inl ErrHTTPTooManyRequests, s, w)"
  using assms
  by (auto simp: handleClipboardPut_def put_body_def getClipboardFile_def put_admit_absent)

lemma refused_status:
  assumes "rstatus w = None"
  shows "rstatus (snd (handle_outcome e (Inl ErrHTTPTooManyRequests, s, w))) = Some 429"
  using assms by (simp add: handle_outcome_def fail_status)

lemma put_admit_present:
  assumes "map_of (files s) i \<noteq> None"
  shows "case getVisitor d e s r of
           (ip, v, s1) \<Rightarrow>
             (case limiter_Add (vcountLimiter v) 1 of
                None \<Rightarrow> put_admit d e s r i m = (Some ErrHTTPTooManyRequests, s1)
              | Some l \<Rightarrow>
                  visitors (snd (put_admit d e s r i m))
                    = (visitors s1)(ip \<mapsto> v\<lparr>vcountLimiter := l\<rparr>))"
  using assms
  by (auto simp: put_admit_def Let_def split: option.splits prod.splits)

lemma overwrite_count:
  assumes nm: "\<not> HasSuffix i '':meta''" and pr: "map_of (files s) i \<noteq> None"
  shows "lvalue (countLimiter (fst (snd (handleClipboardPut d e cfg s w r i))))
           \<le> max (lvalue (countLimiter s)) (int (length (content_files (files s))))"
proof -
  let ?S = "fst (snd (fst (put_body d e cfg s w r i)))"
  from put_body_count [OF nm, of d e cfg s w r] pr
  have a: "content_count_with i (files ?S) \<le> content_count_with i (files s)"
    and b: "lvalue (countLimiter ?S) \<le> lvalue (countLimiter s)" by simp_all
  have c: "int (length (content_files (files ?S))) \<le> int (length (content_files (files s)))"
    using a ccw_le_content [of "files ?S" i] pr by (simp add: ccw_present)
  show ?thesis
  proof (cases "snd (put_body d e cfg s w r i)")
    case True
    from handleClipboardPut_deferred [OF True]
    have "fst (snd (handleClipboardPut d e cfg s w r i)) = updateStatsAndExpire d e cfg ?S"
      by simp
    with updateStatsAndExpire_count_le [of d e cfg ?S] b c show ?thesis by simp
  next
    case False
    then have "fst (snd (handleClipboardPut d e cfg s w r i)) = ?S"
      by (cases "put_body d e cfg s w r i") (auto simp: handleClipboardPut_def)
    with b show ?thesis by simp
  qed
qed

lemma run_fills_cap:
  assumes "new_entry_writes d cfg (newServer cfg fs) ws = Some s"
    and "0 < ClipboardCountLimit cfg" and "int (length ws) = ClipboardCountLimit cfg"
  shows "limiter_Add (countLimiter s) 1 = None"
proof -
  from new_entry_writes_count [OF assms(1)]
  have a: "min 0 (int (length (content_files fs))) + int (length ws) \<le> lvalue (countLimiter s)"
    and l: "llimit (countLimiter s) = ClipboardCountLimit cfg"
    by (simp_all add: newServer_def newLimiter_def)
  have "min 0 (int (length (content_files fs))) = 0" by simp
  with a assms(3) have "ClipboardCountLimit cfg \<le> lvalue (countLimiter s)" by simp
  with l assms(2) show ?thesis by (simp add: limiter_Add_None)
qed

section \<open>Authorization: the query parameter\<close>

text \<open>
  C10.  On a protected server, when the query parameter \<^verbatim>\<open>a\<close> is present, its
  first value, base64-decoded, takes the place of the Authorization header: if it
  does not decode the request is unauthorized, whatever the header holds; if it
  decodes to \<open>q\<close> the outcome is that of a request carrying \<open>q\<close> as its header
  and no such parameter; and the outcome does not depend on the header at all.
\<close>

theorem query_auth_replaces_header:
  assumes "Key cfg = Some key" and "Query r queryParamAuth = Some (e # es)"
  shows "(b64decode d e = None \<longrightarrow> authorize d cfg t r = Inl ErrHTTPUnauthorized) \<and>
         (\<forall>q. b64decode d e = Some q \<longrightarrow>
              authorize d cfg t r =
              authorize d cfg t (r\<lparr>Header := [''Authorization'' \<mapsto> q], Query := Map.empty\<rparr>)) \<and>
         (\<forall>h. authorize d cfg t (r\<lparr>Header := h\<rparr>) = authorize d cfg t r)"
proof -
  have av: "\<And>h. auth_value d (r\<lparr>Header := h\<rparr>) = auth_value d r"
    using assms(2) by (simp add: auth_value_def)
  have hm: "\<And>h q m. authorizeHmac d key t (r\<lparr>Header := h, Query := q\<rparr>) m = authorizeHmac d key t r m"
    "\<And>h m. authorizeHmac d key t (r\<lparr>Header := h\<rparr>) m = authorizeHmac d key t r m"
    by (simp_all add: authorizeHmac_def split: option.splits)
  have 1: "b64decode d e = None \<longrightarrow> authorize d cfg t r = Inl ErrHTTPUnauthorized"
    using assms by (simp add: authorize_def auth_value_def)
  have 2: "\<forall>q. b64decode d e = Some q \<longrightarrow>
              authorize d cfg t r =
              authorize d cfg t (r\<lparr>Header := [''Authorization'' \<mapsto> q], Query := Map.empty\<rparr>)"
    using assms
    by (simp add: authorize_def auth_value_def Header_Get_def hm split: option.splits)
  have 3: "\<forall>h. authorize d cfg t (r\<lparr>Header := h\<rparr>) = authorize d cfg t r"
    using assms(1) by (simp add: authorize_def av hm split: option.splits sum.splits)
  from 1 2 3 show ?thesis by blast
qed


theorem query_auth_replaces_header_witness:
  "authorize sample_deps sample_config 0
     ((sample_request ''GET'' ''/abc123'' [])\<lparr>Header := [''Authorization'' \<mapsto> ''Basic dTpzZWNyZXQ='']\<rparr>) = Inr () \<and>
   authorize sample_deps sample_config 0
     ((sample_request ''GET'' ''/abc123'' [])\<lparr>Header := [''Authorization'' \<mapsto> ''Basic dTpzZWNyZXQ=''],
        Query := [queryParamAuth \<mapsto> [''!'']]\<rparr>) = Inl ErrHTTPUnauthorized"
proof -
  let ?r = "(sample_request ''GET'' ''/abc123'' [])\<lparr>Header := [''Authorization'' \<mapsto> ''Basic dTpzZWNyZXQ=''],
        Query := [queryParamAuth \<mapsto> [''!'']]\<rparr>"
  have k: "Key sample_config = Some \<lparr>Bytes = ''saltsecret'', Salt = ''salt''\<rparr>"
    by (simp add: sample_config_def)
  have q: "Query ?r queryParamAuth = Some (''!'' # [])" by simp
  have n: "b64decode sample_deps ''!'' = None" by code_simp
  have a: "authorize sample_deps sample_config 0
     ((sample_request ''GET'' ''/abc123'' [])\<lparr>Header := [''Authorization'' \<mapsto> ''Basic dTpzZWNyZXQ='']\<rparr>) = Inr ()"
    by code_simp
  from query_auth_replaces_header [OF k q, of sample_deps 0] n a show ?thesis by simp
qed

section \<open>Decimal numbers and the regular expressions\<close>

lemma digit_char_cases:
  assumes "k < 10"
  shows "k \<in> {0, 1, 2, 3, 4, 5, 6, 7, 8, 9::nat}"
  using assms by auto

lemma is_digit_digit_char: "k < 10 \<Longrightarrow> is_digit (digit_char k)"
  using digit_char_cases [of k] by (auto simp: is_digit_def digit_char_def)

lemma digit_val_digit_char: "k < 10 \<Longrightarrow> digit_val (digit_char k) = k"
  using digit_char_cases [of k] by (auto simp: digit_val_def digit_char_def)

lemma dec_digits: "list_all is_digit (dec n)"
proof (induction n rule: dec.induct)
  case (1 n)
  show ?case
  proof (cases "n < 10")
    case True
    then show ?thesis by (subst dec.simps) (simp add: is_digit_digit_char)
  next
    case False
    with 1 show ?thesis
      by (subst dec.simps) (simp add: is_digit_digit_char)
  qed
qed

lemma dec_nonempty: "dec n \<noteq> []"
  by (subst dec.simps) simp

lemma dec_val_snoc: "dec_val (xs @ [c]) = 10 * dec_val xs + digit_val c"
  by (simp add: dec_val_def)

lemma dec_val_dec: "dec_val (dec n) = n"
proof (induction n rule: dec.induct)
  case (1 n)
  show ?case
  proof (cases "n < 10")
    case True
    then show ?thesis by (subst dec.simps) (simp add: dec_val_def digit_val_digit_char)
  next
    case False
    with 1 have "dec_val (dec (n div 10)) = n div 10" by simp
    with False show ?thesis
      by (subst dec.simps) (simp add: dec_val_snoc digit_val_digit_char)
  qed
qed

lemma Atoi_dec: "Atoi (dec n) = (if int n \<le> maxInt64 then Some (int n) else None)"
  by (simp add: Atoi_def dec_digits dec_nonempty dec_val_dec)

lemma fmt_d_nat: "fmt_d (int n) = dec n"
  by (simp add: fmt_d_def)

lemma not_digit_space: "\<not> is_digit CHR '' ''"
  by (simp add: is_digit_def)

lemma takeWhile_dec: "takeWhile is_digit (dec n @ CHR '' '' # rest) = dec n"
  using dec_digits [of n] by (simp add: takeWhile_append2 list_all_iff not_digit_space)

lemma dropWhile_dec: "dropWhile is_digit (dec n @ CHR '' '' # rest) = CHR '' '' # rest"
  using dec_digits [of n] by (simp add: dropWhile_append2 list_all_iff not_digit_space)

lemma authHmacRegex_header:
  assumes "0 \<le> ts" and "0 \<le> ttl" and "sg \<noteq> []" and "CHR 0x0A \<notin> set sg"
  shows "authHmacRegex (authHmacFormat ts ttl sg) =
           Some [authHmacFormat ts ttl sg, dec (nat ts), dec (nat ttl), sg]"
  using assms
  by (simp add: authHmacRegex_def authHmacFormat_def fmt_d_def takeWhile_dec dropWhile_dec
      dec_nonempty)


lemma Atoi_dec_nat: "0 \<le> i \<Longrightarrow> i \<le> maxInt64 \<Longrightarrow> Atoi (dec (nat i)) = Some i"
  by (simp add: Atoi_dec)

lemma authorizeHmac_window:
  assumes "0 \<le> ts" and "ts \<le> maxInt64 - unixToInternal" and "0 \<le> ttl" and "ttl \<le> 9223372036"
    and "sg \<noteq> []" and "CHR 0x0A \<notin> set sg"
  shows "authorizeHmac d key t r [authHmacFormat ts ttl sg, dec (nat ts), dec (nat ttl), sg] =
     (if b64decode d sg = Some (hmac_sha256 d (Bytes key) (hmac_data ts ttl (Method r) (Path r)))
         \<and> t - ts * second \<le> (if ttl = 0 then defaultMaxAuthAge else ttl * second)
      then Inr () else Inl ErrHTTPUnauthorized)"
proof -
  have ttl_max: "ttl \<le> maxInt64" using assms(4) by (simp add: maxInt64_def)
  have ts_max: "ts \<le> maxInt64" using assms(2) by (simp add: unixToInternal_def)
  have a1: "Atoi (dec (nat ts)) = Some ts" using assms(1) ts_max by (simp add: Atoi_dec_nat)
  have a2: "Atoi (dec (nat ttl)) = Some ttl" using assms ttl_max by (simp add: Atoi_dec_nat)
  define maxAge where "maxAge = (if ttl = 0 then defaultMaxAuthAge else ttl * second)"
  have w: "(if 0 < ttl then wrap64 (second * ttl) else defaultMaxAuthAge) = maxAge"
    using assms(3,4) unfolding maxAge_def
    by (simp add: wrap64_id minInt64_def maxInt64_def second_def)
  have pos: "0 < maxAge" and lt: "maxAge < maxInt64"
    using assms(3,4) unfolding maxAge_def
    by (simp_all add: defaultMaxAuthAge_def second_def maxInt64_def)
  have age: "(maxAge < Since_Unix t ts) = (maxAge < t - ts * second)"
    unfolding Since_Unix_plain [OF assms(1,2)] using pos lt by (rule sat64_gt)
  have step: "authorizeHmac d key t r [authHmacFormat ts ttl sg, dec (nat ts), dec (nat ttl), sg] =
     (case b64decode d sg of
        None \<Rightarrow> Inl ErrHTTPUnauthorized
      | Some hash \<Rightarrow>
          if hash \<noteq> hmac_sha256 d (Bytes key) (hmac_data ts ttl (Method r) (Path r))
          then Inl ErrHTTPUnauthorized
          else if maxAge < t - ts * second then Inl ErrHTTPUnauthorized else Inr ())"
    unfolding authorizeHmac_def
    by (simp only: a1 a2 Let_def w pos age option.case nth_Cons_Suc nth_Cons_0 One_nat_def
        numeral_2_eq_2 numeral_3_eq_3 simp_thms)
  show ?thesis
    unfolding step
    by (cases "b64decode d sg") (auto simp: maxAge_def)
qed

lemma big_dec: "dec 9223372036854775808 = ''9223372036854775808''"
  by (simp add: dec.simps digit_char_def)

lemma big_fmt: "fmt_d 9223372036854775808 = ''9223372036854775808''"
  by (simp add: fmt_d_def big_dec)

lemma zero_fmt: "fmt_d 0 = ''0''"
  by (simp add: fmt_d_def dec.simps digit_char_def)

lemma sig_ok: "b64decode sample_deps ''c2FsdHNlY3JldHw5MjIzMzcyMDM2ODU0Nzc1ODA4OjA6R0VUOi9hYmMxMjM='' =
     Some (hmac_sha256 sample_deps ''saltsecret'' (hmac_data 9223372036854775808 0 ''GET'' ''/abc123''))"
  unfolding hmac_data_def big_fmt zero_fmt
  by code_simp

section \<open>Authorization: signed requests\<close>

text \<open>
  C3 (amended).  On a protected server, take a request without the query parameter
  whose Authorization header is \<^verbatim>\<open>HMAC <timestamp> <ttl> <signature>\<close> in the
  client's format, the signature a non-empty single line, the timestamp at most
  \<open>2\<^sup>6\<^sup>3 - 1 - 62135596800\<close> (so that it fits \<^verbatim>\<open>int64\<close> and \<^verbatim>\<open>time.Unix\<close> does
  not wrap around) and the TTL at most 9223372036 seconds (so that its nanoseconds fit
  \<^verbatim>\<open>int64\<close>).  It is accepted if and only if the signature decodes to the
  HMAC-SHA256, keyed by the secret, of \<^verbatim>\<open><timestamp>:<ttl>:<method>:<path>\<close>, and
  now minus the timestamp is at most the TTL, or at most one minute when the TTL is 0;
  otherwise the answer is unauthorized.
\<close>

theorem hmac_accepted_iff:
  assumes "Key cfg = Some key"
    and "Query r queryParamAuth = None"
    and "Header r ''Authorization'' = Some (authHmacFormat ts ttl sg)"
    and "sg \<noteq> []" and "CHR 0x0A \<notin> set sg"
    and "0 \<le> ts" and "ts \<le> maxInt64 - unixToInternal" and "0 \<le> ttl" and "ttl \<le> 9223372036"
  shows "authorize d cfg t r =
     (if b64decode d sg = Some (hmac_sha256 d (Bytes key) (hmac_data ts ttl (Method r) (Path r)))
         \<and> t - ts * second \<le> (if ttl = 0 then defaultMaxAuthAge else ttl * second)
      then Inr () else Inl ErrHTTPUnauthorized)"
proof -
  have av: "auth_value d r = Inr (authHmacFormat ts ttl sg)"
    using assms(2,3) by (simp add: auth_value_def Header_Get_def)
  have rx: "authHmacRegex (authHmacFormat ts ttl sg) =
              Some [authHmacFormat ts ttl sg, dec (nat ts), dec (nat ttl), sg]"
    using assms by (simp add: authHmacRegex_header)
  show ?thesis
    unfolding authorize_def
    using assms(1) av rx authorizeHmac_window [OF assms(6-9) assms(4,5), of d key t r]
    by simp
qed

theorem hmac_accepted_iff_witness:
  "authorize sample_deps sample_config (130 * second)
      (hmac_request 100 60 ''c2FsdHNlY3JldHwxMDA6NjA6R0VUOi9hYmMxMjM='') = Inr () \<and>
   authorize sample_deps sample_config (161 * second)
      (hmac_request 100 60 ''c2FsdHNlY3JldHwxMDA6NjA6R0VUOi9hYmMxMjM='') = Inl ErrHTTPUnauthorized \<and>
   authorize sample_deps sample_config (130 * second)
      (hmac_request 100 60 ''d2FsdHNlY3JldHwxMDA6NjA6R0VUOi9hYmMxMjM='') = Inl ErrHTTPUnauthorized"
proof -
  let ?sg = "''c2FsdHNlY3JldHwxMDA6NjA6R0VUOi9hYmMxMjM=''"
  let ?bad = "''d2FsdHNlY3JldHwxMDA6NjA6R0VUOi9hYmMxMjM=''"
  let ?key = "\<lparr>Bytes = ''saltsecret'', Salt = ''salt''\<rparr>"
  have k: "Key sample_config = Some ?key" by (simp add: sample_config_def)
  have q: "\<And>sg. Query (hmac_request 100 60 sg) queryParamAuth = None"
    by (simp add: hmac_request_def sample_request_def)
  have h: "\<And>sg. Header (hmac_request 100 60 sg) ''Authorization'' = Some (authHmacFormat 100 60 sg)"
    by (simp add: hmac_request_def)
  have n: "?sg \<noteq> []" "CHR 0x0A \<notin> set ?sg" "?bad \<noteq> []" "CHR 0x0A \<notin> set ?bad" by simp_all
  have b: "(0::int) \<le> 100" "(100::int) \<le> maxInt64 - unixToInternal" "(0::int) \<le> 60"
    "(60::int) \<le> 9223372036"
    by (simp_all add: maxInt64_def unixToInternal_def)
  have s1: "b64decode sample_deps ?sg =
      Some (hmac_sha256 sample_deps (Bytes ?key)
        (hmac_data 100 60 (Method (hmac_request 100 60 ?sg)) (Path (hmac_request 100 60 ?sg))))"
    by code_simp
  have s2: "b64decode sample_deps ?bad \<noteq>
      Some (hmac_sha256 sample_deps (Bytes ?key)
        (hmac_data 100 60 (Method (hmac_request 100 60 ?bad)) (Path (hmac_request 100 60 ?bad))))"
    by code_simp
  have t1: "130 * second - 100 * second \<le> (if (60::int) = 0 then defaultMaxAuthAge else 60 * second)"
    by (simp add: second_def)
  have t2: "\<not> 161 * second - 100 * second \<le> (if (60::int) = 0 then defaultMaxAuthAge else 60 * second)"
    by (simp add: second_def)
  show ?thesis
    using hmac_accepted_iff [OF k q h n(1,2) b, of sample_deps "130 * second"]
      hmac_accepted_iff [OF k q h n(1,2) b, of sample_deps "161 * second"]
      hmac_accepted_iff [OF k q h n(3,4) b, of sample_deps "130 * second"]
      s1 s2 t1 t2
    by simp
qed

text \<open>
  The claim as first stated fails for a timestamp beyond \<^verbatim>\<open>int64\<close>: the signature
  is the HMAC of the signed text and the request is not too old, yet the conversion of
  the timestamp fails and the request is refused.
\<close>

theorem hmac_timestamp_range_counterexample:
  "b64decode sample_deps ''c2FsdHNlY3JldHw5MjIzMzcyMDM2ODU0Nzc1ODA4OjA6R0VUOi9hYmMxMjM='' =
     Some (hmac_sha256 sample_deps ''saltsecret'' (hmac_data 9223372036854775808 0 ''GET'' ''/abc123'')) \<and>
   130 * second - 9223372036854775808 * second \<le> defaultMaxAuthAge \<and>
   authorize sample_deps sample_config (130 * second)
     (hmac_request 9223372036854775808 0
        ''c2FsdHNlY3JldHw5MjIzMzcyMDM2ODU0Nzc1ODA4OjA6R0VUOi9hYmMxMjM='') = Inl ErrHTTPUnauthorized"
proof -
  let ?sg = "''c2FsdHNlY3JldHw5MjIzMzcyMDM2ODU0Nzc1ODA4OjA6R0VUOi9hYmMxMjM=''"
  let ?r = "hmac_request 9223372036854775808 0 ?sg"
  have age: "130 * second - 9223372036854775808 * second \<le> defaultMaxAuthAge"
    by (simp add: second_def defaultMaxAuthAge_def)
  have av: "auth_value sample_deps ?r = Inr (authHmacFormat 9223372036854775808 0 ?sg)"
    by (simp add: auth_value_def hmac_request_def sample_request_def Header_Get_def)
  have rx: "authHmacRegex (authHmacFormat 9223372036854775808 0 ?sg) =
      Some [authHmacFormat 9223372036854775808 0 ?sg, dec (nat 9223372036854775808), dec (nat 0), ?sg]"
    by (rule authHmacRegex_header) simp_all
  have at: "Atoi (dec 9223372036854775808) = None"
    by (simp add: Atoi_dec maxInt64_def)
  have "authorize sample_deps sample_config (130 * second) ?r = Inl ErrHTTPUnauthorized"
    unfolding authorize_def
    using rx by (simp add: sample_config_def av authorizeHmac_def at)
  with sig_ok age show ?thesis by blast
qed

section \<open>Authorization: the shared password\<close>

lemma split_on_no_sep: "c \<notin> set s \<Longrightarrow> split_on c s = [s]"
  by (induction s) auto

lemma split_on_first: "c \<notin> set u \<Longrightarrow> split_on c (u @ c # p) = u # split_on c p"
  by (induction u) auto

lemma split_on_length: "length (split_on c s) = Suc (count_list s c)"
  by (induction s) (auto split: list.splits)

lemma authHmacRegex_Basic: "authHmacRegex (''Basic '' @ tok) = None"
  by (simp add: authHmacRegex_def)

lemma authBasicRegex_tok:
  "tok \<noteq> [] \<Longrightarrow> \<not> list_ex is_space tok \<Longrightarrow>
     authBasicRegex (''Basic '' @ tok) = Some [''Basic '' @ tok, tok]"
  by (simp add: authBasicRegex_def)

text \<open>
  C4 (amended).  On a protected server, take a request without the query parameter
  whose Authorization header is \<^verbatim>\<open>Basic <token>\<close>, the token decoding to
  \<^verbatim>\<open>user:password\<close> with no colon in the user name nor in the password.  It is
  accepted if the password derives the configured key, whatever the user name, and
  unauthorized for any other password.
\<close>

theorem basic_accepted_iff:
  assumes "Key cfg = Some key"
    and "Query r queryParamAuth = None"
    and "Header r ''Authorization'' = Some (''Basic '' @ tok)"
    and "tok \<noteq> []" and "\<not> list_ex is_space tok"
    and "b64decode d tok = Some (user @ '':'' @ password)"
    and "CHR '':'' \<notin> set user" and "CHR '':'' \<notin> set password"
  shows "authorize d cfg t r =
     (if DeriveKey d password (Salt key) = Bytes key then Inr () else Inl ErrHTTPUnauthorized)"
proof -
  have av: "auth_value d r = Inr (''Basic '' @ tok)"
    using assms(2,3) by (simp add: auth_value_def Header_Get_def)
  have parts: "split_on CHR '':'' (user @ '':'' @ password) = [user, password]"
    using assms(7,8) by (simp add: split_on_first split_on_no_sep)
  have rx1: "authHmacRegex (''Basic '' @ tok) = None"
    by (rule authHmacRegex_Basic)
  have rx2: "authBasicRegex (''Basic '' @ tok) = Some [''Basic '' @ tok, tok]"
    using assms(4,5) by (rule authBasicRegex_tok)
  have ab: "authorizeBasic d key [''Basic '' @ tok, tok] =
     (if DeriveKey d password (Salt key) = Bytes key then Inr () else Inl ErrHTTPUnauthorized)"
    unfolding authorizeBasic_def using assms(6) parts by (simp add: Let_def)
  show ?thesis
    unfolding authorize_def
    by (simp only: assms(1) av rx1 rx2 ab option.case sum.case)
qed

theorem basic_accepted_iff_witness:
  "authorize sample_deps sample_config 0 (basic_request ''dTpzZWNyZXQ='') = Inr () \<and>
   authorize sample_deps sample_config 0 (basic_request ''Ym9iOnNlY3JldA=='') = Inr () \<and>
   authorize sample_deps sample_config 0 (basic_request ''dTpzZWNyZXQx'') = Inl ErrHTTPUnauthorized"
proof -
  let ?key = "\<lparr>Bytes = ''saltsecret'', Salt = ''salt''\<rparr>"
  have k: "Key sample_config = Some ?key" by (simp add: sample_config_def)
  have q: "\<And>tok. Query (basic_request tok) queryParamAuth = None"
    by (simp add: basic_request_def sample_request_def)
  have h: "\<And>tok. Header (basic_request tok) ''Authorization'' = Some (''Basic '' @ tok)"
    by (simp add: basic_request_def)
  have d1: "b64decode sample_deps ''dTpzZWNyZXQ='' = Some (''u'' @ '':'' @ ''secret'')" by code_simp
  have d2: "b64decode sample_deps ''Ym9iOnNlY3JldA=='' = Some (''bob'' @ '':'' @ ''secret'')" by code_simp
  have d3: "b64decode sample_deps ''dTpzZWNyZXQx'' = Some (''u'' @ '':'' @ ''secret1'')" by code_simp
  have s: "\<not> list_ex is_space ''dTpzZWNyZXQ=''" "\<not> list_ex is_space ''Ym9iOnNlY3JldA==''"
    "\<not> list_ex is_space ''dTpzZWNyZXQx''"
    by (simp_all add: is_space_def)
  have dk: "DeriveKey sample_deps ''secret'' (Salt ?key) = Bytes ?key"
    "DeriveKey sample_deps ''secret1'' (Salt ?key) \<noteq> Bytes ?key"
    by (simp_all add: sample_deps_def)
  show ?thesis
    using basic_accepted_iff [OF k q h _ s(1) d1, of 0]
      basic_accepted_iff [OF k q h _ s(2) d2, of 0]
      basic_accepted_iff [OF k q h _ s(3) d3, of 0] dk
    by simp
qed

text \<open>
  The claim as first stated fails for a password that contains a colon: the
  credential then splits into three parts and is refused, although the password
  derives the configured key.
\<close>

theorem basic_colon_password_counterexample:
  "b64decode sample_deps ''dTpzZTpjcmV0'' = Some (''u'' @ '':'' @ ''se:cret'') \<and>
   DeriveKey sample_deps ''se:cret'' ''salt'' = ''saltse:cret'' \<and>
   authorize sample_deps (sample_config\<lparr>Key := Some \<lparr>Bytes = ''saltse:cret'', Salt = ''salt''\<rparr>\<rparr>) 0
     (basic_request ''dTpzZTpjcmV0'') = Inl ErrHTTPUnauthorized"
  by code_simp

section \<open>The response of a write\<close>

text \<open>
  C1.  The claim: the body of the response to a successful write is exactly the URL
  and a newline, or exactly the JSON object.  The code: \<^verbatim>\<open>writePutOutput\<close> goes on
  to write the line \<^verbatim>\<open>hi there\<close> a hundred times, in either format, so the body is
  900 bytes longer than the claim says.
\<close>

theorem put_output_extra_bytes:
  "writePutOutput sample_deps (quiet 5) blank ''abc123'' 0 0 ''text'' =
     (Inr (),
      \<lparr>rheaders = [''Content-Type'' \<mapsto> ''application/octet-stream'',
                    headerURL \<mapsto> ''https://host/abc123'', headerExpires \<mapsto> ''0''],
       rbody = ''https://host/abc123'' @ [CHR 0x0A] @ concat (replicate 100 (''hi there'' @ [CHR 0x0A])),
       rstatus = Some 200\<rparr>) \<and>
   writePutOutput sample_deps (quiet 5) blank ''abc123'' 0 0 ''json'' =
     (Inr (),
      \<lparr>rheaders = [''Content-Type'' \<mapsto> ''application/octet-stream'',
                    headerURL \<mapsto> ''https://host/abc123'', headerExpires \<mapsto> ''0''],
       rbody = encode_put sample_deps ''https://host/abc123'' 0
                 @ concat (replicate 100 (''hi there'' @ [CHR 0x0A])),
       rstatus = Some 200\<rparr>)"
proof -
  have u: "GenerateClipURL sample_deps ''abc123'' 0 = Some ''https://host/abc123''"
    by (simp add: sample_deps_def)
  have q: "\<not> resp_write_fails (quiet 5)" by (simp add: quiet_def)
  have z: "fmt_d 0 = ''0''" by (simp add: fmt_d_def dec.simps digit_char_def)
  show ?thesis
    by (simp add: writePutOutput_ok [OF u q] blank_def z)
qed

section \<open>Rolling back the count limiter\<close>

text \<open>
  C6.  The claim: when the streaming step fails, the \<open>add(1)\<close> of this write is
  taken back on the limiter that was charged.  The code: every rollback is
  \<^verbatim>\<open>s.countLimiter.Sub(1)\<close>.  On a streamed overwrite of an existing entry whose
  early response cannot be written, the global counter, which was not charged, drops
  from 1 to 0, and the visitor's counter, which was charged, stays at 1.
\<close>

theorem stream_overwrite_rollback_wrong_limiter:
  "(case handleClipboardPut sample_deps ((quiet 9)\<lparr>resp_write_fails := True\<rparr>) sample_config
           ((newServer sample_config stored)\<lparr>countLimiter := \<lparr>lvalue = 1, llimit = 2\<rparr>\<rparr>) blank
           (stream_request [''hello'']) ''abc123'' of
      (res, s, w) \<Rightarrow>
        res = Inl (ErrOther ''write'') \<and>
        lvalue (countLimiter s) = 0 \<and>
        map_option (\<lambda>v. lvalue (vcountLimiter v)) (visitors s ''10.0.0.1'') = Some 1)"
  by code_simp

section \<open>The counters after a sweep\<close>

text \<open>
  C9.  The claim: a sweep that reads the directory sets the two global limiters to the
  number and the total size of the files that survive.  The code: \<^verbatim>\<open>maybeExpire\<close>
  returns false when removing the metadata file fails, after the content file has been
  removed.  A file without a metadata file, older than \<^verbatim>\<open>FileExpireAfter\<close>, is
  deleted and still counted: the directory is empty, the counters are 1 file and 2 bytes.
\<close>

theorem sweep_counts_deleted_file:
  "(case updateStatsAndExpire sample_deps (quiet (100 * second))
           (sample_config\<lparr>FileExpireAfter := second\<rparr>)
           (newServer sample_config [(''ab'', \<lparr>kind = RegularFile, fdata = ''xy'', fmtime = 0\<rparr>)]) of
      s \<Rightarrow> files s = [] \<and> lvalue (countLimiter s) = 1 \<and> lvalue (sizeLimiter s) = 2)"
  by code_simp

section \<open>Reading a streamed entry\<close>

lemma handleClipboardGet_absent:
  assumes "map_of (files s) i = None" and "i \<notin> set reservedFiles"
  shows "handleClipboardGet e s w i = (Inl ErrHTTPNotFound, s, w)"
  using assms by (simp add: handleClipboardGet_def getClipboardFile_def)

lemma handleClipboardGet_ok:
  assumes "handleClipboardGet e s w i = (Inr (), s', w')"
  shows "\<exists>f. map_of (files s) i = Some f \<and> rbody w' = rbody w @ fdata f \<and>
             (kind f = NamedPipe \<longrightarrow> files s' = fst (os_Remove e (files s) i)) \<and>
             (kind f \<noteq> NamedPipe \<longrightarrow> s' = s)"
  using assms
  by (auto simp: handleClipboardGet_def getClipboardFile_def Let_def copy_to_response_def
      w_Write_def Header_Set_def WriteHeader_simps split: option.splits if_splits)

text \<open>
  C8.  An entry created in streaming mode is a named pipe.  Once a GET has drained it
  and returned, the removal succeeding, the response holds the bytes of the stream, the
  file is gone, and every later GET of the identifier on the store as it then is
  answers not-found.
\<close>

theorem stream_read_once:
  assumes "map_of (files s) i = Some f" and "kind f = NamedPipe"
    and "handleClipboardGet e s w i = (Inr (), s', w')"
    and "\<not> remove_fails e i"
  shows "rbody w' = rbody w @ fdata f \<and>
         map_of (files s') i = None \<and>
         (\<forall>e2 w2. handleClipboardGet e2 s' w2 i = (Inl ErrHTTPNotFound, s', w2))"
proof -
  from handleClipboardGet_ok [OF assms(3)] obtain g where g: "map_of (files s) i = Some g"
    and body: "rbody w' = rbody w @ fdata g"
    and rm: "kind g = NamedPipe \<longrightarrow> files s' = fst (os_Remove e (files s) i)"
    by blast
  from g assms(1) have gf: "g = f" by simp
  from assms(3) have nr: "i \<notin> set reservedFiles"
    by (auto simp: handleClipboardGet_def getClipboardFile_def split: if_splits)
  from rm gf assms(2) have "files s' = fst (os_Remove e (files s) i)" by simp
  with assms(4) have gone: "map_of (files s') i = None" by (simp add: os_Remove_gone)
  from gone nr have "\<forall>e2 w2. handleClipboardGet e2 s' w2 i = (Inl ErrHTTPNotFound, s', w2)"
    by (simp add: handleClipboardGet_absent)
  with body gf gone show ?thesis by simp
qed

theorem stream_read_once_witness:
  "fst (handleClipboardPut sample_deps (quiet 5) sample_config (newServer sample_config []) blank
           (stream_request [''hel'', ''lo'']) ''abc123'') = Inr () \<and>
   (case handleClipboardGet (quiet 6)
           (fst (snd (handleClipboardPut sample_deps (quiet 5) sample_config
                        (newServer sample_config []) blank (stream_request [''hel'', ''lo'']) ''abc123'')))
           blank ''abc123'' of
      (res2, s2, w2) \<Rightarrow>
        res2 = Inr () \<and> rbody w2 = ''hello'' \<and>
        map_of (files s2) ''abc123'' = None \<and>
        handleClipboardGet (quiet 7) s2 blank ''abc123'' = (Inl ErrHTTPNotFound, s2, blank))"
proof -
  define s1 where "s1 = fst (snd (handleClipboardPut sample_deps (quiet 5) sample_config
      (newServer sample_config []) blank (stream_request [''hel'', ''lo'']) ''abc123''))"
  obtain res2 s2 w2 where g: "handleClipboardGet (quiet 6) s1 blank ''abc123'' = (res2, s2, w2)"
    by (rule prod_cases3)
  have r1: "fst (handleClipboardPut sample_deps (quiet 5) sample_config (newServer sample_config [])
      blank (stream_request [''hel'', ''lo'']) ''abc123'') = Inr ()"
    by code_simp
  have f1: "map_of (files s1) ''abc123'' = Some \<lparr>kind = NamedPipe, fdata = ''hello'', fmtime = 5\<rparr>"
    unfolding s1_def by code_simp
  have r2: "res2 = Inr ()"
    using g [symmetric] f1
    by (simp add: handleClipboardGet_def getClipboardFile_def reservedFiles_def quiet_def
        copy_to_response_def w_Write_def)
  have nf: "\<not> remove_fails (quiet 6) ''abc123''" by (simp add: quiet_def)
  have k: "kind \<lparr>kind = NamedPipe, fdata = ''hello'', fmtime = 5\<rparr> = NamedPipe" by simp
  from stream_read_once [OF f1 k g [unfolded r2] nf]
  have "rbody w2 = rbody blank @ ''hello''" and "map_of (files s2) ''abc123'' = None"
    and "handleClipboardGet (quiet 7) s2 blank ''abc123'' = (Inl ErrHTTPNotFound, s2, blank)"
    by simp_all
  then show ?thesis
    unfolding s1_def [symmetric] g using r1 r2 by (simp add: s1_def blank_def)
qed

section \<open>Bodies beyond a size cap\<close>




section \<open>Writing, then reading\<close>

text \<open>
  C2.  For a permitted, non-reserved identifier and any body, in whatever chunks it
  arrives: if the PUT succeeds, its removals of the old files succeeding, and the entry
  has not expired when the sweep deferred by the PUT runs (the metadata written reads
  back as written, and its expiry instant is not before the clock; the clock and the
  TTL are \<^verbatim>\<open>int64\<close> nanoseconds), then a GET of the
  same identifier on the resulting store, its own I/O succeeding, answers with exactly
  the bytes of the body.
\<close>

theorem put_then_get:
  assumes "valid_id i" and "i \<notin> set reservedFiles"
    and "Body r = Some chunks"
    and "handleClipboardPut d e cfg s w r i = (Inr (), s', w')"
    and "\<not> remove_fails e i" and "\<not> remove_fails e (i @ '':meta'')"
    and "getFileMode cfg r = Inr mode" and "getTTL d cfg r = Inr ttl"
    and "decode_meta d (encode_meta d \<lparr>Mode = mode, Expires = expires_at e ttl\<rparr>)
           = Some \<lparr>Mode = mode, Expires = expires_at e ttl\<rparr>"
    and "\<not> (0 < expires_at e ttl \<and> expires_at e ttl * second < now e)"
    and "\<not> get_open_fails e2" and "\<not> resp_write_fails e2"
    and "now e \<le> maxInt64" and "ttl \<le> maxInt64"
  shows "fst (handleClipboardGet e2 s' w2 i) = Inr () \<and>
         rbody (snd (snd (handleClipboardGet e2 s' w2 i))) = rbody w2 @ concat chunks"
proof -
  have colon: "CHR '':'' \<notin> set i" using assms(1) by (rule valid_id_no_colon)
  have ok: "fst (fst (put_body d e cfg s w r i)) = Inr ()"
    using assms(4) handleClipboardPut_fst [of d e cfg s w r i] by simp
  let ?s5 = "fst (snd (fst (put_body d e cfg s w r i)))"
  from put_body_stored [OF ok assms(3) colon assms(5,6,7,8)] obtain f g where
    f: "map_of (files ?s5) i = Some f" "fdata f = concat chunks"
    and g: "map_of (files ?s5) (i @ '':meta'') = Some g"
      "fdata g = encode_meta d \<lparr>Mode = mode, Expires = expires_at e ttl\<rparr>"
    by blast
  have rmeta: "readMetaFile d (files ?s5) (i @ '':meta'') = Some \<lparr>Mode = mode, Expires = expires_at e ttl\<rparr>"
    using g assms(9) by (simp add: readMetaFile_def)
  have notexp: "\<not> (0 < Expires \<lparr>Mode = mode, Expires = expires_at e ttl\<rparr>
                  \<and> Expires \<lparr>Mode = mode, Expires = expires_at e ttl\<rparr> * second < now e)"
    using assms(10) by simp
  have inrange: "Expires \<lparr>Mode = mode, Expires = expires_at e ttl\<rparr> \<le> maxInt64 - unixToInternal"
    using expires_at_bound [OF assms(13,14)] by simp
  have s': "s' = updateStatsAndExpire d e cfg ?s5"
    using assms(4) handleClipboardPut_deferred [OF put_body_ok_deferred [OF ok]] by simp
  have "map_of (files s') i = Some f"
    unfolding s' using updateStatsAndExpire_keeps [OF colon rmeta notexp inrange] f by simp
  with f(2) assms(2,11,12) show ?thesis
    by (simp add: handleClipboardGet_def getClipboardFile_def Let_def copy_to_response_def
        w_Write_def Header_Set_def WriteHeader_simps)
qed

theorem put_then_get_witness:
  "fst (handleClipboardPut sample_deps (quiet 5) sample_config (newServer sample_config []) blank
          (sample_request ''PUT'' ''/abc123'' [''hel'', ''lo'']) ''abc123'') = Inr () \<and>
   fst (handleClipboardGet (quiet 6)
          (fst (snd (handleClipboardPut sample_deps (quiet 5) sample_config
                       (newServer sample_config []) blank
                       (sample_request ''PUT'' ''/abc123'' [''hel'', ''lo'']) ''abc123'')))
          blank ''abc123'') = Inr () \<and>
   rbody (snd (snd (handleClipboardGet (quiet 6)
          (fst (snd (handleClipboardPut sample_deps (quiet 5) sample_config
                       (newServer sample_config []) blank
                       (sample_request ''PUT'' ''/abc123'' [''hel'', ''lo'']) ''abc123'')))
          blank ''abc123''))) = ''hello''"
proof -
  let ?r = "sample_request ''PUT'' ''/abc123'' [''hel'', ''lo'']"
  let ?P = "handleClipboardPut sample_deps (quiet 5) sample_config (newServer sample_config []) blank
              ?r ''abc123''"
  have r1: "fst ?P = Inr ()" by code_simp
  then have p: "?P = (Inr (), fst (snd ?P), snd (snd ?P))"
    by (metis prod.collapse)
  have v: "valid_id ''abc123''" by code_simp
  have nr: "''abc123'' \<notin> set reservedFiles" by code_simp
  have b: "Body ?r = Some [''hel'', ''lo'']" by (simp add: sample_request_def)
  have rm: "\<not> remove_fails (quiet 5) ''abc123''" "\<not> remove_fails (quiet 5) (''abc123'' @ '':meta'')"
    by (simp_all add: quiet_def)
  have m: "getFileMode sample_config ?r = Inr ''rw''" by code_simp
  have t: "getTTL sample_deps sample_config ?r = Inr 0" by code_simp
  have c: "decode_meta sample_deps (encode_meta sample_deps \<lparr>Mode = ''rw'', Expires = expires_at (quiet 5) 0\<rparr>)
             = Some \<lparr>Mode = ''rw'', Expires = expires_at (quiet 5) 0\<rparr>"
    by code_simp
  have x: "\<not> (0 < expires_at (quiet 5) 0 \<and> expires_at (quiet 5) 0 * second < now (quiet 5))"
    by (simp add: expires_at_def)
  have g: "\<not> get_open_fails (quiet 6)" "\<not> resp_write_fails (quiet 6)"
    by (simp_all add: quiet_def)
  have i64: "now (quiet 5) \<le> maxInt64" "(0::int) \<le> maxInt64"
    by (simp_all add: quiet_def maxInt64_def)
  from put_then_get [OF v nr b p rm m t c x g i64, of blank] r1
  show ?thesis by (simp add: blank_def)
qed

section \<open>The cap on the number of entries\<close>

text \<open>
  C5 (amended).  A write to an identifier that is not reserved, with a body, for which
  the directory has no entry, is charged \<^verbatim>\<open>Add(1)\<close> on the global count limiter and on
  nothing else: if the limiter refuses, the handler returns too-many-requests with the
  store and the response untouched, and the client gets status 429; if it accepts,
  the existence check changes the global count limiter only.  A write to an identifier
  that has an entry is charged \<^verbatim>\<open>Add(1)\<close> on the put-count limiter of the requesting
  visitor, which answers too-many-requests when it refuses; its existence check leaves
  the global count limiter as it was, and after the whole request the global count is
  at most the larger of its value before and the number of content files there were.
  After a run of N successful writes of new entries on a new server, N > 0 being the
  configured count cap, \<^emph>\<open>in which no deferred sweep found an expired entry\<close>, the next
  write of a new entry returns too-many-requests, with status 429.
\<close>

theorem count_cap:
  "(i \<notin> set reservedFiles \<and> Body r \<noteq> None \<and> map_of (files s) i = None \<longrightarrow>
      (case limiter_Add (countLimiter s) 1 of
         None \<Rightarrow>
           handleClipboardPut d e cfg s w r i = (Inl ErrHTTPTooManyRequests, s, w) \<and>
           (rstatus w = None \<longrightarrow>
              rstatus (snd (handle_outcome e (handleClipboardPut d e cfg s w r i))) = Some 429)
       | Some l \<Rightarrow> put_admit d e s r i (i @ '':meta'') = (None, s\<lparr>countLimiter := l\<rparr>)))
   \<and>
   (map_of (files s) i \<noteq> None \<longrightarrow>
      countLimiter (snd (put_admit d e s r i (i @ '':meta''))) = countLimiter s \<and>
      (case getVisitor d e s r of
         (ip, v, s1) \<Rightarrow>
           (case limiter_Add (vcountLimiter v) 1 of
              None \<Rightarrow> put_admit d e s r i (i @ '':meta'') = (Some ErrHTTPTooManyRequests, s1)
            | Some l \<Rightarrow>
                visitors (snd (put_admit d e s r i (i @ '':meta'')))
                  = (visitors s1)(ip \<mapsto> v\<lparr>vcountLimiter := l\<rparr>))) \<and>
      (valid_id i \<longrightarrow>
         lvalue (countLimiter (fst (snd (handleClipboardPut d e cfg s w r i))))
           \<le> max (lvalue (countLimiter s)) (int (length (content_files (files s))))))
   \<and>
   (new_entry_writes d cfg (newServer cfg fs) ws = Some s \<and>
    0 < ClipboardCountLimit cfg \<and> int (length ws) = ClipboardCountLimit cfg \<and>
    i \<notin> set reservedFiles \<and> Body r \<noteq> None \<and> map_of (files s) i = None \<longrightarrow>
      handleClipboardPut d e cfg s w r i = (Inl ErrHTTPTooManyRequests, s, w) \<and>
      (rstatus w = None \<longrightarrow>
         rstatus (snd (handle_outcome e (handleClipboardPut d e cfg s w r i))) = Some 429))"
proof (intro conjI impI)
  assume a: "i \<notin> set reservedFiles \<and> Body r \<noteq> None \<and> map_of (files s) i = None"
  show "case limiter_Add (countLimiter s) 1 of
         None \<Rightarrow>
           handleClipboardPut d e cfg s w r i = (Inl ErrHTTPTooManyRequests, s, w) \<and>
           (rstatus w = None \<longrightarrow>
              rstatus (snd (handle_outcome e (handleClipboardPut d e cfg s w r i))) = Some 429)
       | Some l \<Rightarrow> put_admit d e s r i (i @ '':meta'') = (None, s\<lparr>countLimiter := l\<rparr>)"
  proof (cases "limiter_Add (countLimiter s) 1")
    case None
    from a None have "handleClipboardPut d e cfg s w r i = (Inl ErrHTTPTooManyRequests, s, w)"
      by (intro put_new_entry_refused) simp_all
    with None show ?thesis by (simp add: refused_status)
  next
    case (Some l)
    with a show ?thesis by (simp add: put_admit_absent)
  qed
next
  assume p: "map_of (files s) i \<noteq> None"
  obtain x s1 where adm: "put_admit d e s r i (i @ '':meta'') = (x, s1)"
    by (cases "put_admit d e s r i (i @ '':meta'')")
  from put_admit_count [OF adm] p
  show "countLimiter (snd (put_admit d e s r i (i @ '':meta''))) = countLimiter s"
    by (simp add: adm)
next
  assume p: "map_of (files s) i \<noteq> None"
  then show "case getVisitor d e s r of
         (ip, v, s1) \<Rightarrow>
           (case limiter_Add (vcountLimiter v) 1 of
              None \<Rightarrow> put_admit d e s r i (i @ '':meta'') = (Some ErrHTTPTooManyRequests, s1)
            | Some l \<Rightarrow>
                visitors (snd (put_admit d e s r i (i @ '':meta'')))
                  = (visitors s1)(ip \<mapsto> v\<lparr>vcountLimiter := l\<rparr>))"
    by (rule put_admit_present)
next
  assume p: "map_of (files s) i \<noteq> None" and v: "valid_id i"
  from overwrite_count [OF valid_id_not_meta [OF v] p]
  show "lvalue (countLimiter (fst (snd (handleClipboardPut d e cfg s w r i))))
           \<le> max (lvalue (countLimiter s)) (int (length (content_files (files s))))" .
next
  assume a: "new_entry_writes d cfg (newServer cfg fs) ws = Some s \<and>
    0 < ClipboardCountLimit cfg \<and> int (length ws) = ClipboardCountLimit cfg \<and>
    i \<notin> set reservedFiles \<and> Body r \<noteq> None \<and> map_of (files s) i = None"
  then have full: "limiter_Add (countLimiter s) 1 = None"
    by (intro run_fills_cap [of d cfg fs ws]) simp_all
  from a full show h: "handleClipboardPut d e cfg s w r i = (Inl ErrHTTPTooManyRequests, s, w)"
    by (intro put_new_entry_refused) simp_all
  assume "rstatus w = None"
  then show "rstatus (snd (handle_outcome e (handleClipboardPut d e cfg s w r i))) = Some 429"
    unfolding h by (rule refused_status)
qed

theorem count_cap_witness:
  "fst (handleClipboardPut sample_deps (quiet 2) sample_config
          (store_after (quiet 1)
             (store_after (quiet 0) (newServer sample_config [])
                (sample_request ''PUT'' ''/aaa'' [''a'']) ''aaa'')
             (sample_request ''PUT'' ''/bbb'' [''b'']) ''bbb'')
          blank (sample_request ''PUT'' ''/ccc'' [''c'']) ''ccc'') = Inl ErrHTTPTooManyRequests \<and>
   rstatus (snd (handle_outcome (quiet 2) (handleClipboardPut sample_deps (quiet 2) sample_config
          (store_after (quiet 1)
             (store_after (quiet 0) (newServer sample_config [])
                (sample_request ''PUT'' ''/aaa'' [''a'']) ''aaa'')
             (sample_request ''PUT'' ''/bbb'' [''b'']) ''bbb'')
          blank (sample_request ''PUT'' ''/ccc'' [''c'']) ''ccc''))) = Some 429 \<and>
   lvalue (countLimiter (snd (put_admit sample_deps (quiet 2)
          (store_after (quiet 1)
             (store_after (quiet 0) (newServer sample_config [])
                (sample_request ''PUT'' ''/aaa'' [''a'']) ''aaa'')
             (sample_request ''PUT'' ''/bbb'' [''b'']) ''bbb'')
          (sample_request ''PUT'' ''/aaa'' [''x'']) ''aaa'' (''aaa'' @ '':meta'')))) = 2 \<and>
   map_option (\<lambda>v. lvalue (vcountLimiter v))
     (visitors (snd (put_admit sample_deps (quiet 2)
          (store_after (quiet 1)
             (store_after (quiet 0) (newServer sample_config [])
                (sample_request ''PUT'' ''/aaa'' [''a'']) ''aaa'')
             (sample_request ''PUT'' ''/bbb'' [''b'']) ''bbb'')
          (sample_request ''PUT'' ''/aaa'' [''x'']) ''aaa'' (''aaa'' @ '':meta''))) ''10.0.0.1'') = Some 1 \<and>
   lvalue (countLimiter (fst (snd (handleClipboardPut sample_deps (quiet 2) sample_config
          (store_after (quiet 1)
             (store_after (quiet 0) (newServer sample_config [])
                (sample_request ''PUT'' ''/aaa'' [''a'']) ''aaa'')
             (sample_request ''PUT'' ''/bbb'' [''b'']) ''bbb'')
          blank (sample_request ''PUT'' ''/aaa'' [''x'']) ''aaa'')))) \<le> 2"
proof -
  let ?ra = "sample_request ''PUT'' ''/aaa'' [''a'']"
  let ?rb = "sample_request ''PUT'' ''/bbb'' [''b'']"
  let ?rc = "sample_request ''PUT'' ''/ccc'' [''c'']"
  let ?rx = "sample_request ''PUT'' ''/aaa'' [''x'']"
  let ?s0 = "newServer sample_config []"
  let ?s1 = "store_after (quiet 0) ?s0 ?ra ''aaa''"
  let ?s2 = "store_after (quiet 1) ?s1 ?rb ''bbb''"
  have va: "valid_id ''aaa''" and vb: "valid_id ''bbb''" by code_simp+
  have a0: "map_of (files ?s0) ''aaa'' = None" by code_simp
  have a1: "map_of (files ?s1) ''bbb'' = None" by code_simp
  have o0: "fst (handleClipboardPut sample_deps (quiet 0) sample_config ?s0 blank ?ra ''aaa'') = Inr ()"
    by code_simp
  have o1: "fst (handleClipboardPut sample_deps (quiet 1) sample_config ?s1 blank ?rb ''bbb'') = Inr ()"
    by code_simp
  have n0: "nothing_expired sample_deps (quiet 0) sample_config
              (files (fst (snd (fst (put_body sample_deps (quiet 0) sample_config ?s0 blank ?ra ''aaa'')))))"
    by code_simp
  have n1: "nothing_expired sample_deps (quiet 1) sample_config
              (files (fst (snd (fst (put_body sample_deps (quiet 1) sample_config ?s1 blank ?rb ''bbb'')))))"
    by code_simp
  have run: "new_entry_writes sample_deps sample_config ?s0
               [(quiet 0, ?ra, ''aaa''), (quiet 1, ?rb, ''bbb'')] = Some ?s2"
    using va vb a0 a1 o0 o1 n0 n1
    by (simp only: new_entry_writes.simps store_after_def simp_thms if_True)
  have cap: "0 < ClipboardCountLimit sample_config"
    "int (length [(quiet 0, ?ra, ''aaa''), (quiet 1, ?rb, ''bbb'')]) = ClipboardCountLimit sample_config"
    by (simp_all add: sample_config_def)
  have nr: "''ccc'' \<notin> set reservedFiles" by code_simp
  have b: "Body ?rc \<noteq> None" by (simp add: sample_request_def)
  have a2: "map_of (files ?s2) ''ccc'' = None" by code_simp
  have bl: "rstatus blank = None" by (simp add: blank_def)
  have p2: "map_of (files ?s2) ''aaa'' \<noteq> None" by code_simp
  have k2: "lvalue (countLimiter ?s2) = 2" by code_simp
  have f2: "int (length (content_files (files ?s2))) = 2" by code_simp
  have ip: "fst (getVisitor sample_deps (quiet 2) ?s2 ?rx) = ''10.0.0.1''" by code_simp
  have ad: "limiter_Add (vcountLimiter (fst (snd (getVisitor sample_deps (quiet 2) ?s2 ?rx)))) 1
              = Some \<lparr>lvalue = 1, llimit = 10\<rparr>"
    by code_simp
  note new = count_cap [where i = "''ccc''" and r = ?rc and s = ?s2 and d = sample_deps
      and e = "quiet 2" and cfg = sample_config and w = blank and fs = "[]"
      and ws = "[(quiet 0, ?ra, ''aaa''), (quiet 1, ?rb, ''bbb'')]"]
  note old = count_cap [where i = "''aaa''" and r = ?rx and s = ?s2 and d = sample_deps
      and e = "quiet 2" and cfg = sample_config and w = blank and fs = "[]"
      and ws = "[]"]
  from new run cap nr b a2 bl
  have c1: "handleClipboardPut sample_deps (quiet 2) sample_config ?s2 blank ?rc ''ccc''
              = (Inl ErrHTTPTooManyRequests, ?s2, blank)"
    and c2: "rstatus (snd (handle_outcome (quiet 2)
              (handleClipboardPut sample_deps (quiet 2) sample_config ?s2 blank ?rc ''ccc''))) = Some 429"
    by blast+
  note ov = old [THEN conjunct2, THEN conjunct1, THEN mp, OF p2]
  note c3 = ov [THEN conjunct1]
  note c4 = ov [THEN conjunct2, THEN conjunct1]
  note c5 = ov [THEN conjunct2, THEN conjunct2, THEN mp, OF va]
  obtain ip' v s1 where gv: "getVisitor sample_deps (quiet 2) ?s2 ?rx = (ip', v, s1)"
    by (rule prod_cases3)
  from c4 ip ad
  have c6: "map_option (\<lambda>v. lvalue (vcountLimiter v))
     (visitors (snd (put_admit sample_deps (quiet 2) ?s2 ?rx ''aaa'' (''aaa'' @ '':meta''))) ''10.0.0.1'')
       = Some 1"
    unfolding gv by simp
  from c1 c2 c3 c5 c6 k2 f2 show ?thesis by simp
qed

text \<open>
  Without the condition on expired entries the count is not the number of writes: with
  a cap of two entries, a first new entry written with a lifetime of one second and a
  second new entry written a hundred seconds later, whose sweep removes the first,
  leave room for a third new entry, which is written.
\<close>

theorem expired_entry_frees_cap_counterexample:
  "ClipboardCountLimit sample_config = 2 \<and>
   map_of (files (newServer sample_config [])) ''aaa'' = None \<and>
   fst (handleClipboardPut sample_deps (quiet 0) sample_config (newServer sample_config []) blank
          (ttl_request ''/aaa'' ''1'' [''a'']) ''aaa'') = Inr () \<and>
   map_of (files (store_after (quiet 0) (newServer sample_config [])
                    (ttl_request ''/aaa'' ''1'' [''a'']) ''aaa'')) ''bbb'' = None \<and>
   fst (handleClipboardPut sample_deps (quiet (100 * second)) sample_config
          (store_after (quiet 0) (newServer sample_config []) (ttl_request ''/aaa'' ''1'' [''a'']) ''aaa'')
          blank (sample_request ''PUT'' ''/bbb'' [''b'']) ''bbb'') = Inr () \<and>
   map_of (files (store_after (quiet (100 * second))
                    (store_after (quiet 0) (newServer sample_config [])
                       (ttl_request ''/aaa'' ''1'' [''a'']) ''aaa'')
                    (sample_request ''PUT'' ''/bbb'' [''b'']) ''bbb'')) ''ccc'' = None \<and>
   fst (handleClipboardPut sample_deps (quiet (101 * second)) sample_config
          (store_after (quiet (100 * second))
             (store_after (quiet 0) (newServer sample_config [])
                (ttl_request ''/aaa'' ''1'' [''a'']) ''aaa'')
             (sample_request ''PUT'' ''/bbb'' [''b'']) ''bbb'')
          blank (sample_request ''PUT'' ''/ccc'' [''c'']) ''ccc'') = Inr ()"
  by code_simp

end
